theory Spec2Isabelle
  imports Main "HOL-Library.DAList" "HOL-Library.Sublist"
begin

section \<open>Core flow verification script: the embedding\<close>

text \<open>
  The theory embeds \<^verbatim>\<open>scripts/verify-core-flows.py\<close>. The script drives a browser through
  the Playwright library; the library, the HTTP client, the clock and the file system are the
  environment. The environment is a record of operations over an arbitrary world type
  \<open>'w\<close>: each operation takes the world and returns the new world together with either a
  value or the exception it raised. The script itself is a state transformer over the world,
  the global \<^verbatim>\<open>results\<close> dictionary, the lines printed so far and the sequence of library
  calls made so far.
\<close>

subsection \<open>Strings\<close>

text \<open>
  Every error the libraries raise is an instance of Python's \<^verbatim>\<open>Exception\<close>;
  \<^verbatim>\<open>str(exc)\<close> is its message. Asynchronous interrupts are outside the model.
\<close>

datatype exn = Exception (message: string)

text \<open>\<^verbatim>\<open>needle in haystack\<close> on strings: the needle occurs as a contiguous piece.\<close>

primrec str_in :: "string \<Rightarrow> string \<Rightarrow> bool" where
  "str_in needle [] = (needle = [])"
| "str_in needle (c # cs) = (prefix needle (c # cs) \<or> str_in needle cs)"

text \<open>\<^verbatim>\<open>str.lower()\<close>, on the ASCII letters.\<close>

definition lower_char :: "char \<Rightarrow> char" where
  "lower_char c =
     (case map_of (zip ''ABCDEFGHIJKLMNOPQRSTUVWXYZ'' ''abcdefghijklmnopqrstuvwxyz'') c of
        Some d \<Rightarrow> d
      | None \<Rightarrow> c)"

definition lower :: "string \<Rightarrow> string" where
  "lower s = map lower_char s"

text \<open>\<^verbatim>\<open>str(n)\<close> for a count.\<close>

fun str_nat :: "nat \<Rightarrow> string" where
  "str_nat n =
     (if n < 10 then [''0123456789'' ! n]
      else str_nat (n div 10) @ [''0123456789'' ! (n mod 10)])"

declare str_nat.simps [simp del]

text \<open>\<^verbatim>\<open>any(kw in content for kw in kws)\<close>.\<close>

definition any_in :: "string list \<Rightarrow> string \<Rightarrow> bool" where
  "any_in kws content = list_ex (\<lambda>kw. str_in kw content) kws"

subsection \<open>Data\<close>

text \<open>One entry of the \<^verbatim>\<open>results\<close> dictionary: \<^verbatim>\<open>{"passed": ..., "detail": ...}\<close>.\<close>

record flow_result =
  passed :: bool
  detail :: string

text \<open>\<^verbatim>\<open>page.locator(selector).first\<close>: building a locator touches nothing.\<close>

datatype locator = First string

text \<open>
  The document written to \<^verbatim>\<open>summary.json\<close>, one field per key (prefixed \<open>j_\<close>).
  The type \<open>'t\<close> stands for Python's floats, whose arithmetic is not modelled: the
  environment supplies the operations on them.
\<close>

record 't summary =
  j_timestamp :: string
  j_frontend_url :: string
  j_backend_url :: string
  j_total :: nat
  j_passed :: nat
  j_failed :: nat
  j_elapsed_seconds :: 't
  j_results :: "(string \<times> flow_result) list"
  j_console_errors :: "string list"

text \<open>The library calls the script makes, with their arguments.\<close>

datatype 't call =
    UrlOpen string nat
  | PlaywrightEnter
  | PlaywrightExit
  | Launch
  | NewContext
  | SetDefaultTimeout nat
  | NewPage
  | OnConsole
  | Goto string string nat
  | Screenshot string
  | Content
  | WaitForLoadState string
  | WaitForTimeout nat
  | WaitFor locator nat
  | Click locator
  | IsVisible locator nat
  | Fill locator string
  | Press locator string
  | BrowserClose
  | OpenWrite string
  | JsonDump string "'t summary"

text \<open>
  The environment: the three module constants read from the process environment, and the
  behaviour of every library operation the script uses. \<open>stdout_error\<close> is the encoding of
  standard output: \<open>None\<close> for a text it can encode, and the \<^verbatim>\<open>UnicodeEncodeError\<close>
  that \<^verbatim>\<open>print\<close> raises for a text it cannot.
\<close>

record ('w, 't) env =
  FRONTEND_URL :: string
  BACKEND_URL :: string
  SCREENSHOT_DIR :: string
  urlopen :: "string \<Rightarrow> nat \<Rightarrow> 'w \<Rightarrow> (exn + nat) \<times> 'w"
  sync_playwright_enter :: "'w \<Rightarrow> (exn + unit) \<times> 'w"
  sync_playwright_exit :: "'w \<Rightarrow> (exn + unit) \<times> 'w"
  chromium_launch :: "'w \<Rightarrow> (exn + unit) \<times> 'w"
  browser_new_context :: "'w \<Rightarrow> (exn + unit) \<times> 'w"
  context_set_default_timeout :: "nat \<Rightarrow> 'w \<Rightarrow> (exn + unit) \<times> 'w"
  context_new_page :: "'w \<Rightarrow> (exn + unit) \<times> 'w"
  page_on_console :: "'w \<Rightarrow> (exn + unit) \<times> 'w"
  page_goto :: "string \<Rightarrow> string \<Rightarrow> nat \<Rightarrow> 'w \<Rightarrow> (exn + unit) \<times> 'w"
  page_screenshot :: "string \<Rightarrow> 'w \<Rightarrow> (exn + unit) \<times> 'w"
  page_content :: "'w \<Rightarrow> (exn + string) \<times> 'w"
  page_wait_for_load_state :: "string \<Rightarrow> 'w \<Rightarrow> (exn + unit) \<times> 'w"
  page_wait_for_timeout :: "nat \<Rightarrow> 'w \<Rightarrow> (exn + unit) \<times> 'w"
  locator_wait_for :: "locator \<Rightarrow> nat \<Rightarrow> 'w \<Rightarrow> (exn + unit) \<times> 'w"
  locator_click :: "locator \<Rightarrow> 'w \<Rightarrow> (exn + unit) \<times> 'w"
  locator_is_visible :: "locator \<Rightarrow> nat \<Rightarrow> 'w \<Rightarrow> (exn + bool) \<times> 'w"
  locator_fill :: "locator \<Rightarrow> string \<Rightarrow> 'w \<Rightarrow> (exn + unit) \<times> 'w"
  locator_press :: "locator \<Rightarrow> string \<Rightarrow> 'w \<Rightarrow> (exn + unit) \<times> 'w"
  browser_close :: "'w \<Rightarrow> (exn + unit) \<times> 'w"
  console_messages :: "'w \<Rightarrow> (string \<times> string) list"
  time_time :: "'w \<Rightarrow> 't \<times> 'w"
  datetime_now_isoformat :: "'w \<Rightarrow> string \<times> 'w"
  float_sub :: "'t \<Rightarrow> 't \<Rightarrow> 't"
  format_1f :: "'t \<Rightarrow> string"
  round_2 :: "'t \<Rightarrow> 't"
  file_open_w :: "string \<Rightarrow> 'w \<Rightarrow> (exn + unit) \<times> 'w"
  json_dump :: "string \<Rightarrow> 't summary \<Rightarrow> 'w \<Rightarrow> (exn + unit) \<times> 'w"
  stdout_error :: "string \<Rightarrow> exn option"

text \<open>
  The state of a run: the world, the module-level \<^verbatim>\<open>results\<close> dictionary (insertion
  ordered, keys unique), standard output line by line, and the library calls made so far.
\<close>

record ('w, 't) state =
  world :: 'w
  results :: "(string, flow_result) alist"
  stdout :: "string list"
  trace :: "'t call list"

type_synonym ('w, 't, 'a) prog = "('w, 't) state \<Rightarrow> (exn + 'a) \<times> ('w, 't) state"

subsection \<open>Control flow\<close>

definition ret :: "'a \<Rightarrow> ('w, 't, 'a) prog" where
  "ret x st = (Inr x, st)"

definition do_bind :: "('w, 't, 'a) prog \<Rightarrow> ('a \<Rightarrow> ('w, 't, 'b) prog) \<Rightarrow> ('w, 't, 'b) prog" where
  "do_bind m f st = (case m st of (Inl e, st') \<Rightarrow> (Inl e, st') | (Inr x, st') \<Rightarrow> f x st')"

definition do_seq :: "('w, 't, 'a) prog \<Rightarrow> ('w, 't, 'b) prog \<Rightarrow> ('w, 't, 'b) prog" where
  "do_seq m n = do_bind m (\<lambda>_. n)"

text \<open>An expression statement: the value is dropped.\<close>

definition stmt :: "('w, 't, 'a) prog \<Rightarrow> ('w, 't, unit) prog" where
  "stmt m = do_bind m (\<lambda>_. ret ())"

text \<open>A sequence of statements.\<close>

fun block :: "('w, 't, unit) prog list \<Rightarrow> ('w, 't, unit) prog" where
  "block [] = ret ()"
| "block (m # ms) = do_seq m (block ms)"

text \<open>\<^verbatim>\<open>try: m  except Exception as exc: h exc\<close>.\<close>

definition try_except :: "('w, 't, 'a) prog \<Rightarrow> (exn \<Rightarrow> ('w, 't, 'a) prog) \<Rightarrow> ('w, 't, 'a) prog" where
  "try_except m h st = (case m st of (Inl e, st') \<Rightarrow> h e st' | (Inr x, st') \<Rightarrow> (Inr x, st'))"

text \<open>
  \<^verbatim>\<open>try: m  finally: fin\<close>: \<open>fin\<close> always runs; an exception of \<open>fin\<close> replaces the
  outcome of \<open>m\<close>.
\<close>

definition try_finally :: "('w, 't, 'a) prog \<Rightarrow> ('w, 't, unit) prog \<Rightarrow> ('w, 't, 'a) prog" where
  "try_finally m fin st =
     (case m st of (r, st') \<Rightarrow>
        (case fin st' of (Inl e, st'') \<Rightarrow> (Inl e, st'') | (Inr _, st'') \<Rightarrow> (r, st'')))"

text \<open>A library call: the world moves on, the call is appended to the trace.\<close>

definition call :: "'t call \<Rightarrow> ('w \<Rightarrow> (exn + 'a) \<times> 'w) \<Rightarrow> ('w, 't, 'a) prog" where
  "call ev f st =
     (case f (world st) of (r, w') \<Rightarrow> (r, st\<lparr>world := w', trace := trace st @ [ev]\<rparr>))"

text \<open>Reading the clock cannot fail.\<close>

definition ask :: "('w \<Rightarrow> 'a \<times> 'w) \<Rightarrow> ('w, 't, 'a) prog" where
  "ask f st = (case f (world st) of (x, w') \<Rightarrow> (Inr x, st\<lparr>world := w'\<rparr>))"

text \<open>
  \<^verbatim>\<open>print(s)\<close> for a one-line \<open>s\<close> made of the ASCII text of the script, the configuration
  and the messages of the libraries: every encoding of standard output has these.
\<close>

definition print_line :: "string \<Rightarrow> ('w, 't, unit) prog" where
  "print_line s st = (Inr (), st\<lparr>stdout := stdout st @ [s]\<rparr>)"

text \<open>\<^verbatim>\<open>raise exc\<close>.\<close>

definition raise_exn :: "exn \<Rightarrow> ('w, 't, 'a) prog" where
  "raise_exn exc st = (Inl exc, st)"

text \<open>
  \<^verbatim>\<open>print(s)\<close> for a one-line \<open>s\<close> with a character outside ASCII: the text is encoded
  as a whole before anything is written, so either the line is printed or the encoding
  error is raised and standard output is left as it was.
\<close>

definition print_encoded :: "('w, 't) env \<Rightarrow> string \<Rightarrow> ('w, 't, unit) prog" where
  "print_encoded env s =
     (case stdout_error env s of None \<Rightarrow> print_line s | Some exc \<Rightarrow> raise_exn exc)"

subsection \<open>Configuration and helpers\<close>

definition TIMEOUT_MS :: nat where
  "TIMEOUT_MS = 15000"

definition record_result :: "string \<Rightarrow> bool \<Rightarrow> string \<Rightarrow> ('w, 't, unit) prog" where
  "record_result name p d st =
     print_line
       (''  ['' @ (if p then ''PASS'' else ''FAIL'') @ ''] '' @ name
          @ (if d \<noteq> [] then '' -- '' @ d else []))
       (st\<lparr>results := DAList.update name \<lparr>passed = p, detail = d\<rparr> (results st)\<rparr>)"

definition screenshot :: "('w, 't) env \<Rightarrow> string \<Rightarrow> ('w, 't, string) prog" where
  "screenshot env name =
     (let path = SCREENSHOT_DIR env @ ''/'' @ name @ ''.png''
      in do_seq (call (Screenshot path) (page_screenshot env path)) (ret path))"

definition goto :: "('w, 't) env \<Rightarrow> string \<Rightarrow> string \<Rightarrow> nat \<Rightarrow> ('w, 't, unit) prog" where
  "goto env url wait_until timeout = call (Goto url wait_until timeout) (page_goto env url wait_until timeout)"

definition content :: "('w, 't) env \<Rightarrow> ('w, 't, string) prog" where
  "content env = call Content (page_content env)"

definition wait_for_load_state :: "('w, 't) env \<Rightarrow> string \<Rightarrow> ('w, 't, unit) prog" where
  "wait_for_load_state env s = call (WaitForLoadState s) (page_wait_for_load_state env s)"

definition wait_for_timeout :: "('w, 't) env \<Rightarrow> nat \<Rightarrow> ('w, 't, unit) prog" where
  "wait_for_timeout env ms = call (WaitForTimeout ms) (page_wait_for_timeout env ms)"

definition wait_for :: "('w, 't) env \<Rightarrow> locator \<Rightarrow> nat \<Rightarrow> ('w, 't, unit) prog" where
  "wait_for env loc timeout = call (WaitFor loc timeout) (locator_wait_for env loc timeout)"

definition click :: "('w, 't) env \<Rightarrow> locator \<Rightarrow> ('w, 't, unit) prog" where
  "click env loc = call (Click loc) (locator_click env loc)"

definition is_visible :: "('w, 't) env \<Rightarrow> locator \<Rightarrow> nat \<Rightarrow> ('w, 't, bool) prog" where
  "is_visible env loc timeout = call (IsVisible loc timeout) (locator_is_visible env loc timeout)"

definition fill :: "('w, 't) env \<Rightarrow> locator \<Rightarrow> string \<Rightarrow> ('w, 't, unit) prog" where
  "fill env loc text = call (Fill loc text) (locator_fill env loc text)"

definition press :: "('w, 't) env \<Rightarrow> locator \<Rightarrow> string \<Rightarrow> ('w, 't, unit) prog" where
  "press env loc key = call (Press loc key) (locator_press env loc key)"

definition safe_click :: "('w, 't) env \<Rightarrow> string \<Rightarrow> nat \<Rightarrow> ('w, 't, bool) prog" where
  "safe_click env selector timeout =
     try_except
       (let loc = First selector
        in do_seq (wait_for env loc timeout) (do_seq (click env loc) (ret True)))
       (\<lambda>exc. ret False)"

subsection \<open>Flow 1: demo mode login\<close>

definition flow_demo_login_body :: "('w, 't) env \<Rightarrow> ('w, 't, unit) prog" where
  "flow_demo_login_body env =
     block
      [goto env (FRONTEND_URL env) ''networkidle'' TIMEOUT_MS,
       stmt (screenshot env ''01_initial_load''),
       (let demo_btn =
              First (''button:has-text(\"Demo Mode\"), ''
                       @ ''button:has-text(\"Continue without sign in\")'')
        in do_bind (content env) (\<lambda>c.
             let content = lower c
             in if str_in ''dashboard'' content
                     \<or> (str_in ''cscx'' content \<and> str_in ''customer'' content)
                then block
                      [stmt (screenshot env ''01_already_logged_in''),
                       record_result ''demo_login'' True
                         ''Bypassed login (Supabase not configured or already in demo)'']
                else block
                      [wait_for env demo_btn TIMEOUT_MS,
                       click env demo_btn,
                       wait_for_load_state env ''networkidle'',
                       wait_for_timeout env 2000,
                       stmt (screenshot env ''01_after_demo_login''),
                       record_result ''demo_login'' True []]))]"

definition flow_demo_login :: "('w, 't) env \<Rightarrow> ('w, 't, unit) prog" where
  "flow_demo_login env =
     block
      [print_line [],
       print_line ''--- Flow 1: Demo Mode Login ---'',
       try_except (flow_demo_login_body env)
         (\<lambda>exc. block
            [stmt (screenshot env ''01_demo_login_error''),
             record_result ''demo_login'' False (message exc)])]"

subsection \<open>Flow 2: dashboard loads with customer data\<close>

definition flow_dashboard_loads_body :: "('w, 't) env \<Rightarrow> ('w, 't, unit) prog" where
  "flow_dashboard_loads_body env =
     block
      [stmt (safe_click env ''button:has-text(\"Dashboard\")'' 5000),
       wait_for_load_state env ''networkidle'',
       wait_for_timeout env 1500,
       stmt (screenshot env ''02_dashboard''),
       do_bind (content env) (\<lambda>c.
         let content = lower c;
             has_customer_signals =
               any_in [''customer'', ''health'', ''portfolio'', ''arr'', ''revenue'', ''score'']
                 content
         in if has_customer_signals
            then record_result ''dashboard_loads'' True
                   ''Customer data indicators found on dashboard''
            else record_result ''dashboard_loads'' False
                   ''No customer data indicators found'')]"

definition flow_dashboard_loads :: "('w, 't) env \<Rightarrow> ('w, 't, unit) prog" where
  "flow_dashboard_loads env =
     block
      [print_line [],
       print_line ''--- Flow 2: Dashboard Loads with Customer Data ---'',
       try_except (flow_dashboard_loads_body env)
         (\<lambda>exc. block
            [stmt (screenshot env ''02_dashboard_error''),
             record_result ''dashboard_loads'' False (message exc)])]"

subsection \<open>Flow 3: customer detail view\<close>

definition flow_customer_detail_body :: "('w, 't) env \<Rightarrow> ('w, 't, unit) prog" where
  "flow_customer_detail_body env =
     block
      [stmt (safe_click env ''button:has-text(\"Dashboard\")'' 5000),
       wait_for_load_state env ''networkidle'',
       wait_for_timeout env 1000,
       (let customer_row =
              First (''table tbody tr, ''
                       @ ''[class*=\"customer-row\"], ''
                       @ ''[class*=\"customer-card\"], ''
                       @ ''[role=\"row\"]'')
        in do_bind (is_visible env customer_row 5000) (\<lambda>row_visible.
             if row_visible
             then block
                   [click env customer_row,
                    wait_for_load_state env ''networkidle'',
                    wait_for_timeout env 1500,
                    stmt (screenshot env ''03_customer_detail''),
                    do_bind (content env) (\<lambda>c.
                      let content = lower c
                      in if str_in ''customer'' content \<or> str_in ''360'' content
                              \<or> str_in ''detail'' content \<or> str_in ''workspace'' content
                         then record_result ''customer_detail'' True
                                ''Customer detail view loaded''
                         else record_result ''customer_detail'' True
                                ''Clicked customer row, view changed'')]
             else (let link = First ''a[href*=\"customer\"], button:has-text(\"View\")''
                   in do_bind (is_visible env link 3000) (\<lambda>link_visible.
                        if link_visible
                        then block
                              [click env link,
                               wait_for_load_state env ''networkidle'',
                               wait_for_timeout env 1500,
                               stmt (screenshot env ''03_customer_detail''),
                               record_result ''customer_detail'' True
                                 ''Opened customer via link/button'']
                        else block
                              [stmt (screenshot env ''03_no_customer_rows''),
                               record_result ''customer_detail'' False
                                 ''No customer rows or links found'']))))]"

definition flow_customer_detail :: "('w, 't) env \<Rightarrow> ('w, 't, unit) prog" where
  "flow_customer_detail env =
     block
      [print_line [],
       print_line ''--- Flow 3: Customer Detail View ---'',
       try_except (flow_customer_detail_body env)
         (\<lambda>exc. block
            [stmt (screenshot env ''03_customer_detail_error''),
             record_result ''customer_detail'' False (message exc)])]"

subsection \<open>Flow 4: operations hub and its five sub-tabs\<close>

definition sub_tabs :: "(string \<times> string) list" where
  "sub_tabs =
     [(''Automations'', ''automations''),
      (''Playbooks'', ''playbooks''),
      (''Support'', ''support''),
      (''Email'', ''email''),
      (''VoC'', ''voc'')]"

text \<open>
  One round of the loop over the sub-tabs, with its own handler, returning the new value of
  \<^verbatim>\<open>tabs_found\<close>. The increment comes after the screenshot, so an exception before it
  leaves the counter as it was.
\<close>

definition visit_sub_tab :: "('w, 't) env \<Rightarrow> string \<Rightarrow> string \<Rightarrow> nat \<Rightarrow> ('w, 't, nat) prog" where
  "visit_sub_tab env label slug tabs_found =
     try_except
       (let tab_btn = First (''button:has-text(\"'' @ label @ ''\")'')
        in do_bind (is_visible env tab_btn 3000) (\<lambda>visible.
             if visible
             then do_seq (click env tab_btn)
                    (do_seq (wait_for_timeout env 800)
                       (do_seq (screenshot env (''04_ops_'' @ slug))
                          (do_seq
                             (print_line
                                (''    Sub-tab '' @ [CHR 0x27] @ label @ [CHR 0x27]
                                   @ '' -- visible and clicked''))
                             (ret (tabs_found + 1)))))
             else do_seq
                    (print_line
                       (''    Sub-tab '' @ [CHR 0x27] @ label @ [CHR 0x27] @ '' -- not visible''))
                    (ret tabs_found)))
       (\<lambda>exc. do_seq
                 (print_line
                    (''    Sub-tab '' @ [CHR 0x27] @ label @ [CHR 0x27] @ '' -- error accessing''))
                 (ret tabs_found))"

fun visit_sub_tabs :: "('w, 't) env \<Rightarrow> (string \<times> string) list \<Rightarrow> nat \<Rightarrow> ('w, 't, nat) prog" where
  "visit_sub_tabs env [] tabs_found = ret tabs_found"
| "visit_sub_tabs env ((label, slug) # rest) tabs_found =
     do_bind (visit_sub_tab env label slug tabs_found)
       (\<lambda>tabs_found'. visit_sub_tabs env rest tabs_found')"

definition flow_operations_hub_body :: "('w, 't) env \<Rightarrow> ('w, 't, unit) prog" where
  "flow_operations_hub_body env =
     do_bind (safe_click env ''button:has-text(\"Operations\")'' TIMEOUT_MS) (\<lambda>ops_clicked.
       if \<not> ops_clicked
       then block
             [stmt (screenshot env ''04_ops_not_found''),
              record_result ''operations_hub'' False ''Operations button not found in nav'']
       else block
             [wait_for_load_state env ''networkidle'',
              wait_for_timeout env 1000,
              stmt (screenshot env ''04_operations_hub''),
              do_bind (visit_sub_tabs env sub_tabs 0) (\<lambda>tabs_found.
                if tabs_found = 5
                then record_result ''operations_hub'' True ''All 5 sub-tabs accessible''
                else if tabs_found > 0
                then record_result ''operations_hub'' True
                       (str_nat tabs_found @ ''/5 sub-tabs accessible (partial)'')
                else record_result ''operations_hub'' False ''No sub-tabs found'')])"

definition flow_operations_hub :: "('w, 't) env \<Rightarrow> ('w, 't, unit) prog" where
  "flow_operations_hub env =
     block
      [print_line [],
       print_line ''--- Flow 4: Operations Hub (5 sub-tabs) ---'',
       try_except (flow_operations_hub_body env)
         (\<lambda>exc. block
            [stmt (screenshot env ''04_ops_error''),
             record_result ''operations_hub'' False (message exc)])]"

subsection \<open>Flow 5: admin panel access\<close>

definition flow_admin_panel_body :: "('w, 't) env \<Rightarrow> ('w, 't, unit) prog" where
  "flow_admin_panel_body env =
     do_bind (safe_click env ''button:has-text(\"Admin\")'' 5000) (\<lambda>admin_clicked.
       if \<not> admin_clicked
       then block
             [stmt (screenshot env ''05_admin_not_visible''),
              record_result ''admin_panel'' True
                ''Admin button not visible (expected for non-admin/demo users)'']
       else block
             [wait_for_load_state env ''networkidle'',
              wait_for_timeout env 1000,
              stmt (screenshot env ''05_admin_panel''),
              do_bind (content env) (\<lambda>c.
                let content = lower c
                in if any_in [''admin'', ''settings'', ''organization'', ''users'', ''config'']
                        content
                   then record_result ''admin_panel'' True
                          ''Admin panel loaded with settings content''
                   else record_result ''admin_panel'' True
                          ''Admin panel navigated (content may be minimal in demo)'')])"

definition flow_admin_panel :: "('w, 't) env \<Rightarrow> ('w, 't, unit) prog" where
  "flow_admin_panel env =
     block
      [print_line [],
       print_line ''--- Flow 5: Admin Panel Access ---'',
       try_except (flow_admin_panel_body env)
         (\<lambda>exc. block
            [stmt (screenshot env ''05_admin_error''),
             record_result ''admin_panel'' False (message exc)])]"

subsection \<open>Flow 6: agent center\<close>

definition flow_agent_center_body :: "('w, 't) env \<Rightarrow> ('w, 't, unit) prog" where
  "flow_agent_center_body env =
     do_bind (safe_click env ''button:has-text(\"Agent Center\")'' TIMEOUT_MS) (\<lambda>agent_clicked.
       if \<not> agent_clicked
       then block
             [stmt (screenshot env ''06_agent_center_not_found''),
              record_result ''agent_center'' False ''Agent Center button not found'']
       else block
             [wait_for_load_state env ''networkidle'',
              wait_for_timeout env 1500,
              stmt (screenshot env ''06_agent_center''),
              do_bind (content env) (\<lambda>c.
                let content = lower c;
                    has_chat =
                      any_in [''message'', ''agent'', ''chat'', ''send'', ''conversation''] content
                in if has_chat
                   then record_result ''agent_center'' True
                          ''Agent Center loaded with chat interface''
                   else record_result ''agent_center'' True
                          ''Agent Center navigated (chat content may be loading)'')])"

definition flow_agent_center :: "('w, 't) env \<Rightarrow> ('w, 't, unit) prog" where
  "flow_agent_center env =
     block
      [print_line [],
       print_line ''--- Flow 6: Agent Center ---'',
       try_except (flow_agent_center_body env)
         (\<lambda>exc. block
            [stmt (screenshot env ''06_agent_center_error''),
             record_result ''agent_center'' False (message exc)])]"

subsection \<open>Flow 7: knowledge base\<close>

definition flow_knowledge_base_body :: "('w, 't) env \<Rightarrow> ('w, 't, unit) prog" where
  "flow_knowledge_base_body env =
     do_bind (safe_click env ''button:has-text(\"Knowledge Base\")'' TIMEOUT_MS) (\<lambda>kb_clicked.
       if \<not> kb_clicked
       then block
             [stmt (screenshot env ''07_kb_not_found''),
              record_result ''knowledge_base'' False ''Knowledge Base button not found'']
       else block
             [wait_for_load_state env ''networkidle'',
              wait_for_timeout env 1500,
              stmt (screenshot env ''07_knowledge_base''),
              do_bind (content env) (\<lambda>c.
                let content = lower c;
                    has_kb =
                      any_in [''knowledge'', ''document'', ''upload'', ''search'', ''base'', ''file'']
                        content
                in if has_kb
                   then record_result ''knowledge_base'' True ''Knowledge Base loaded''
                   else record_result ''knowledge_base'' True
                          ''Knowledge Base navigated (may be empty)'')])"

definition flow_knowledge_base :: "('w, 't) env \<Rightarrow> ('w, 't, unit) prog" where
  "flow_knowledge_base env =
     block
      [print_line [],
       print_line ''--- Flow 7: Knowledge Base ---'',
       try_except (flow_knowledge_base_body env)
         (\<lambda>exc. block
            [stmt (screenshot env ''07_kb_error''),
             record_result ''knowledge_base'' False (message exc)])]"

subsection \<open>Flow 8: chat message send\<close>

definition test_message :: string where
  "test_message = ''Hello, this is an E2E verification test message.''"

definition flow_chat_send_body :: "('w, 't) env \<Rightarrow> ('w, 't, unit) prog" where
  "flow_chat_send_body env =
     block
      [stmt (safe_click env ''button:has-text(\"Agent Center\")'' 5000),
       wait_for_load_state env ''networkidle'',
       wait_for_timeout env 1500,
       (let chat_input0 =
              First (''textarea[placeholder*=\"Message\" i], ''
                       @ ''textarea[placeholder*=\"message\" i], ''
                       @ ''input[type=\"text\"][placeholder*=\"Message\" i], ''
                       @ ''input[type=\"text\"][placeholder*=\"message\" i], ''
                       @ ''textarea[placeholder*=\"Ask\" i], ''
                       @ ''input[placeholder*=\"Ask\" i]'')
        in do_bind (is_visible env chat_input0 5000) (\<lambda>visible0.
             let chat_input = (if \<not> visible0 then First ''textarea:visible'' else chat_input0)
             in do_bind (is_visible env chat_input 3000) (\<lambda>visible.
                  if visible
                  then block
                        [fill env chat_input test_message,
                         stmt (screenshot env ''08_chat_message_typed''),
                         (let send_btn =
                                First (''button[type=\"submit\"], ''
                                         @ ''button:has-text(\"Send\"), ''
                                         @ ''button[aria-label*=\"Send\" i]'')
                          in do_bind (is_visible env send_btn 2000) (\<lambda>send_visible.
                               if send_visible then click env send_btn
                               else press env chat_input ''Meta+Enter'')),
                         wait_for_timeout env 2000,
                         stmt (screenshot env ''08_chat_message_sent''),
                         record_result ''chat_send'' True ''Message typed and send attempted'']
                  else block
                        [stmt (screenshot env ''08_chat_input_not_found''),
                         record_result ''chat_send'' False
                           ''Chat input not found in Agent Center''])))]"

definition flow_chat_send :: "('w, 't) env \<Rightarrow> ('w, 't, unit) prog" where
  "flow_chat_send env =
     block
      [print_line [],
       print_line ''--- Flow 8: Chat Message Send ---'',
       try_except (flow_chat_send_body env)
         (\<lambda>exc. block
            [stmt (screenshot env ''08_chat_send_error''),
             record_result ''chat_send'' False (message exc)])]"

subsection \<open>The runner\<close>

definition rule60 :: "char \<Rightarrow> string" where
  "rule60 c = replicate 60 c"

definition print_header :: "('w, 't) env \<Rightarrow> ('w, 't, unit) prog" where
  "print_header env =
     block
      [print_line (rule60 CHR ''=''),
       print_line ''  CSCX.AI  --  PRD-7 Core Flow Verification'',
       print_line (rule60 CHR ''=''),
       print_line (''  Frontend : '' @ FRONTEND_URL env),
       print_line (''  Backend  : '' @ BACKEND_URL env),
       print_line (''  Screenshots : '' @ SCREENSHOT_DIR env),
       do_bind (ask (datetime_now_isoformat env)) (\<lambda>now.
         print_line (''  Started  : '' @ now)),
       print_line (rule60 CHR ''='')]"

text \<open>
  The second line of the warning printed when the preflight request fails. It is the only
  printed text of the script with a character outside ASCII: an em dash (U+2014, here its
  three bytes in UTF-8), where the header line of the run has \<^verbatim>\<open>--\<close>.
\<close>

definition continuing_line :: string where
  "continuing_line =
     ''  Continuing anyway '' @ [CHR 0xE2, CHR 0x80, CHR 0x94] @ '' some flows may fail.''"

text \<open>
  The preflight request to the backend's health endpoint, inside its own handler. The prints
  of the handler are not guarded: an exception of theirs leaves \<^verbatim>\<open>run_verification\<close>.
\<close>

definition preflight :: "('w, 't) env \<Rightarrow> ('w, 't, unit) prog" where
  "preflight env =
     try_except
       (let url = BACKEND_URL env @ ''/api/health''
        in do_bind (call (UrlOpen url 5) (urlopen env url 5)) (\<lambda>status.
             block [print_line [], print_line (''  Backend health check: '' @ str_nat status)]))
       (\<lambda>exc. block
          [print_line [],
           print_line (''  WARNING: Backend health check failed ('' @ message exc @ '')''),
           print_encoded env continuing_line,
           print_line []])"

text \<open>The eight calls inside the runner's \<^verbatim>\<open>try\<close>.\<close>

definition run_flows :: "('w, 't) env \<Rightarrow> ('w, 't, unit) prog" where
  "run_flows env =
     block
      [flow_demo_login env,
       flow_dashboard_loads env,
       flow_customer_detail env,
       flow_operations_hub env,
       flow_admin_panel env,
       flow_agent_center env,
       flow_knowledge_base env,
       flow_chat_send env]"

text \<open>The runner's \<^verbatim>\<open>try ... except Exception ... finally: browser.close()\<close>.\<close>

definition fatal_handler :: "('w, 't) env \<Rightarrow> exn \<Rightarrow> ('w, 't, unit) prog" where
  "fatal_handler env exc =
     block
      [print_line [],
       print_line (''  FATAL ERROR: '' @ message exc),
       stmt (screenshot env ''fatal_error'')]"

definition guarded_flows :: "('w, 't) env \<Rightarrow> ('w, 't, unit) prog" where
  "guarded_flows env =
     try_finally
       (try_except (run_flows env) (fatal_handler env))
       (call BrowserClose (browser_close env))"

text \<open>
  What the \<^verbatim>\<open>with\<close> block does before the runner's \<^verbatim>\<open>try\<close>: it launches the browser,
  opens the context and the page, and registers the console handler.
\<close>

definition open_page :: "('w, 't) env \<Rightarrow> ('w, 't, unit) prog" where
  "open_page env =
     block
      [call Launch (chromium_launch env),
       call NewContext (browser_new_context env),
       call (SetDefaultTimeout TIMEOUT_MS) (context_set_default_timeout env TIMEOUT_MS),
       call NewPage (context_new_page env),
       call OnConsole (page_on_console env)]"

text \<open>
  The \<^verbatim>\<open>with sync_playwright() as pw:\<close> block: the context manager's exit runs however
  the block ends.
\<close>

definition browser_session :: "('w, 't) env \<Rightarrow> ('w, 't, unit) prog" where
  "browser_session env =
     do_seq (call PlaywrightEnter (sync_playwright_enter env))
       (try_finally
          (do_seq (open_page env) (guarded_flows env))
          (call PlaywrightExit (sync_playwright_exit env)))"

text \<open>
  \<^verbatim>\<open>console_errors\<close>: the texts of the console messages of type \<^verbatim>\<open>error\<close> that the
  page has delivered to the registered handler.
\<close>

definition console_errors :: "('w, 't) env \<Rightarrow> ('w, 't, string list) prog" where
  "console_errors env st =
     (Inr (map snd (filter (\<lambda>msg. fst msg = ''error'') (console_messages env (world st)))), st)"

text \<open>The summary loop over \<^verbatim>\<open>results.items()\<close>, carrying the two counters.\<close>

fun tally :: "(string \<times> flow_result) list \<Rightarrow> nat \<Rightarrow> nat \<Rightarrow> ('w, 't, nat \<times> nat) prog" where
  "tally [] passed_n failed_n = ret (passed_n, failed_n)"
| "tally ((name, info) # rest) passed_n failed_n =
     do_seq
       (print_line
          (''  ['' @ (if passed info then ''PASS'' else ''FAIL'') @ '']  '' @ name
             @ (if detail info \<noteq> [] then ''  --  '' @ detail info else [])))
       (if passed info then tally rest (passed_n + 1) failed_n
        else tally rest passed_n (failed_n + 1))"

definition tally_line :: "('w, 't) env \<Rightarrow> nat \<Rightarrow> nat \<Rightarrow> nat \<Rightarrow> 't \<Rightarrow> string" where
  "tally_line env passed_n total_n failed_n elapsed =
     ''  '' @ str_nat passed_n @ ''/'' @ str_nat total_n @ '' passed, '' @ str_nat failed_n
       @ '' failed  ('' @ format_1f env elapsed @ ''s)''"

text \<open>
  The summary section of the runner, in two parts: what is printed, up to the line naming the
  screenshot directory, and the writing of \<^verbatim>\<open>summary.json\<close>. The first part hands the two
  counters to the second; \<^verbatim>\<open>total\<close> is their sum in both.
\<close>

definition print_summary :: "('w, 't) env \<Rightarrow> 't \<Rightarrow> string list \<Rightarrow> ('w, 't, nat \<times> nat) prog" where
  "print_summary env elapsed errors =
     do_seq (block
              [print_line [],
               print_line (rule60 CHR ''=''),
               print_line ''  VERIFICATION SUMMARY'',
               print_line (rule60 CHR ''='')])
       (do_bind (\<lambda>st. tally (DAList.impl_of (results st)) 0 0 st) (\<lambda>(passed_n, failed_n).
          let total_n = passed_n + failed_n
          in do_seq (block
                 [print_line (rule60 CHR ''-''),
                  print_line (tally_line env passed_n total_n failed_n elapsed),
                  (if errors \<noteq> []
                   then block
                         ([print_line [],
                           print_line (''  Console errors captured: '' @ str_nat (length errors))]
                          @ map (\<lambda>err. print_line (''    - '' @ take 120 err)) (take 10 errors))
                   else ret ()),
                  print_line [],
                  print_line (''  Screenshots saved to: '' @ SCREENSHOT_DIR env),
                  print_line (rule60 CHR ''='')])
               (ret (passed_n, failed_n))))"

definition write_summary ::
  "('w, 't) env \<Rightarrow> 't \<Rightarrow> string list \<Rightarrow> nat \<Rightarrow> nat \<Rightarrow> ('w, 't, unit) prog" where
  "write_summary env elapsed errors passed_n failed_n =
     (let total_n = passed_n + failed_n;
          summary_path = SCREENSHOT_DIR env @ ''/'' @ ''summary.json''
      in block
          [call (OpenWrite summary_path) (file_open_w env summary_path),
           do_bind (ask (datetime_now_isoformat env)) (\<lambda>now. \<lambda>st.
             (let doc =
                \<lparr>j_timestamp = now,
                 j_frontend_url = FRONTEND_URL env,
                 j_backend_url = BACKEND_URL env,
                 j_total = total_n,
                 j_passed = passed_n,
                 j_failed = failed_n,
                 j_elapsed_seconds = round_2 env elapsed,
                 j_results = DAList.impl_of (results st),
                 j_console_errors = take 20 errors\<rparr>
              in call (JsonDump summary_path doc) (json_dump env summary_path doc) st)),
           print_line (''  JSON summary: '' @ summary_path),
           print_line []])"

definition report :: "('w, 't) env \<Rightarrow> 't \<Rightarrow> string list \<Rightarrow> ('w, 't, nat) prog" where
  "report env elapsed errors =
     do_bind (print_summary env elapsed errors) (\<lambda>(passed_n, failed_n).
       do_seq (write_summary env elapsed errors passed_n failed_n)
         (ret (if failed_n = 0 then 0 else 1)))"

definition run_verification :: "('w, 't) env \<Rightarrow> ('w, 't, nat) prog" where
  "run_verification env =
     do_bind (ask (time_time env)) (\<lambda>start.
       do_seq (print_header env)
         (do_seq (preflight env)
            (do_seq (browser_session env)
               (do_bind (console_errors env) (\<lambda>errors.
                  do_bind (ask (time_time env)) (\<lambda>finish.
                    report env (float_sub env finish start) errors))))))"

text \<open>
  The process: the module starts with an empty \<^verbatim>\<open>results\<close> dictionary and ends with
  \<^verbatim>\<open>sys.exit(run_verification())\<close>. An exception that leaves \<^verbatim>\<open>run_verification\<close> is
  uncaught: the interpreter ends the process with status 1.
\<close>

definition initial :: "'w \<Rightarrow> ('w, 't) state" where
  "initial w = \<lparr>world = w, results = DAList.empty, stdout = [], trace = []\<rparr>"

definition main :: "('w, 't) env \<Rightarrow> 'w \<Rightarrow> nat \<times> ('w, 't) state" where
  "main env w =
     (case run_verification env (initial w) of
        (Inr code, st) \<Rightarrow> (code, st)
      | (Inl exc, st) \<Rightarrow> (1, st))"

subsection \<open>Notions used in the statements\<close>

text \<open>The keys of the \<^verbatim>\<open>results\<close> dictionary, in insertion order.\<close>

definition recorded :: "('w, 't) state \<Rightarrow> string list" where
  "recorded st = map fst (DAList.impl_of (results st))"

text \<open>The names under which the eight flows record, in the order the runner calls them.\<close>

definition flow_names :: "string list" where
  "flow_names =
     [''demo_login'', ''dashboard_loads'', ''customer_detail'', ''operations_hub'',
      ''admin_panel'', ''agent_center'', ''knowledge_base'', ''chat_send'']"

text \<open>A sequence of calls of \<^verbatim>\<open>record\<close>.\<close>

fun record_all :: "(string \<times> bool \<times> string) list \<Rightarrow> ('w, 't, unit) prog" where
  "record_all [] = ret ()"
| "record_all ((name, p, d) # rest) = do_seq (record_result name p d) (record_all rest)"

text \<open>A computation that leaves the \<^verbatim>\<open>results\<close> dictionary as it is.\<close>

definition keeps :: "('w, 't, 'a) prog \<Rightarrow> bool" where
  "keeps m \<longleftrightarrow> (\<forall>st. results (snd (m st)) = results st)"

text \<open>
  A computation that, when it returns, has stored exactly one result under \<open>name\<close>, one
  that satisfies \<open>P\<close>, and, when it raises, has stored nothing.
\<close>

definition records :: "string \<Rightarrow> (flow_result \<Rightarrow> bool) \<Rightarrow> ('w, 't, 'a) prog \<Rightarrow> bool" where
  "records name P m \<longleftrightarrow>
     (\<forall>st. case m st of
        (Inl exc, st') \<Rightarrow> results st' = results st
      | (Inr x, st') \<Rightarrow> (\<exists>res. P res \<and> results st' = DAList.update name res (results st)))"

text \<open>A computation all of whose library calls satisfy \<open>Q\<close>.\<close>

definition emits :: "('t call \<Rightarrow> bool) \<Rightarrow> ('w, 't, 'a) prog \<Rightarrow> bool" where
  "emits Q m \<longleftrightarrow> (\<forall>st. \<exists>evs. trace (snd (m st)) = trace st @ evs \<and> list_all Q evs)"

text \<open>A computation that never raises.\<close>

definition returns :: "('w, 't, 'a) prog \<Rightarrow> bool" where
  "returns m \<longleftrightarrow> (\<forall>st. \<not> isl (fst (m st)))"

text \<open>Environments in which a group of operations never fails.\<close>

definition session_ok :: "('w, 't) env \<Rightarrow> bool" where
  "session_ok env \<longleftrightarrow>
     (\<forall>w. fst (sync_playwright_enter env w) = Inr ())
     \<and> (\<forall>w. fst (chromium_launch env w) = Inr ())
     \<and> (\<forall>w. fst (browser_new_context env w) = Inr ())
     \<and> (\<forall>w. fst (context_set_default_timeout env TIMEOUT_MS w) = Inr ())
     \<and> (\<forall>w. fst (context_new_page env w) = Inr ())
     \<and> (\<forall>w. fst (page_on_console env w) = Inr ())
     \<and> (\<forall>w. fst (browser_close env w) = Inr ())
     \<and> (\<forall>w. fst (sync_playwright_exit env w) = Inr ())"

definition summary_ok :: "('w, 't) env \<Rightarrow> bool" where
  "summary_ok env \<longleftrightarrow>
     (\<forall>path w. fst (file_open_w env path w) = Inr ())
     \<and> (\<forall>path doc w. fst (json_dump env path doc w) = Inr ())"

definition shots_ok :: "('w, 't) env \<Rightarrow> bool" where
  "shots_ok env \<longleftrightarrow> (\<forall>path w. fst (page_screenshot env path w) = Inr ())"

text \<open>
  The runner in three parts. \<open>prelude\<close> is what it does before the \<^verbatim>\<open>with\<close> block: it
  reads the clock, prints the header and sends the preflight request. \<open>startup\<close> goes on
  to the runner's \<^verbatim>\<open>try\<close>: it enters the context manager and opens the page;
  \<open>flows_start\<close> is the state in which the first flow is called when none of this raises.
  \<open>wrap_up\<close> is what follows the \<^verbatim>\<open>with\<close> block.
\<close>

definition prelude :: "('w, 't) env \<Rightarrow> ('w, 't, 't) prog" where
  "prelude env =
     do_bind (ask (time_time env)) (\<lambda>start.
       do_seq (print_header env) (do_seq (preflight env) (ret start)))"

definition startup :: "('w, 't) env \<Rightarrow> ('w, 't, 't) prog" where
  "startup env =
     do_bind (prelude env) (\<lambda>start.
       do_seq (call PlaywrightEnter (sync_playwright_enter env))
         (do_seq (open_page env) (ret start)))"

definition flows_start :: "('w, 't) env \<Rightarrow> 'w \<Rightarrow> ('w, 't) state" where
  "flows_start env w = snd (startup env (initial w))"

definition wrap_up :: "('w, 't) env \<Rightarrow> 't \<Rightarrow> ('w, 't, nat) prog" where
  "wrap_up env start =
     do_bind (console_errors env) (\<lambda>errors.
       do_bind (ask (time_time env)) (\<lambda>finish.
         report env (float_sub env finish start) errors))"

text \<open>The library calls made while the browser session is being opened.\<close>

definition opening_call :: "('w, 't) env \<Rightarrow> 't call \<Rightarrow> bool" where
  "opening_call env ev \<longleftrightarrow>
     ev = UrlOpen (BACKEND_URL env @ ''/api/health'') 5
     \<or> ev = PlaywrightEnter \<or> ev = Launch \<or> ev = NewContext
     \<or> ev = SetDefaultTimeout TIMEOUT_MS \<or> ev = NewPage \<or> ev = OnConsole
     \<or> ev = PlaywrightExit"


text \<open>The runner's own diagnostic screenshot never fails.\<close>

definition fatal_shot_ok :: "('w, 't) env \<Rightarrow> bool" where
  "fatal_shot_ok env \<longleftrightarrow>
     (\<forall>w. fst (page_screenshot env (SCREENSHOT_DIR env @ ''/fatal_error.png'') w) = Inr ())"

text \<open>The number of entries of a dictionary that passed, and that failed.\<close>

definition count_passed :: "(string \<times> flow_result) list \<Rightarrow> nat" where
  "count_passed items = length (filter (\<lambda>kv. passed (snd kv)) items)"

definition count_failed :: "(string \<times> flow_result) list \<Rightarrow> nat" where
  "count_failed items = length (filter (\<lambda>kv. \<not> passed (snd kv)) items)"

subsection \<open>Example environments\<close>

text \<open>
  An application in which every operation succeeds: the page shows a dashboard, every
  element is visible, the backend answers 200. The world carries nothing.
\<close>

definition ok_env :: "(unit, unit) env" where
  "ok_env =
     \<lparr>FRONTEND_URL = ''http://localhost:3002'',
      BACKEND_URL = ''http://localhost:3001'',
      SCREENSHOT_DIR = ''/repo/test-screenshots/prd7-verification'',
      urlopen = (\<lambda>url timeout w. (Inr 200, w)),
      sync_playwright_enter = (\<lambda>w. (Inr (), w)),
      sync_playwright_exit = (\<lambda>w. (Inr (), w)),
      chromium_launch = (\<lambda>w. (Inr (), w)),
      browser_new_context = (\<lambda>w. (Inr (), w)),
      context_set_default_timeout = (\<lambda>ms w. (Inr (), w)),
      context_new_page = (\<lambda>w. (Inr (), w)),
      page_on_console = (\<lambda>w. (Inr (), w)),
      page_goto = (\<lambda>url wait_until timeout w. (Inr (), w)),
      page_screenshot = (\<lambda>path w. (Inr (), w)),
      page_content = (\<lambda>w. (Inr ''Customer Dashboard (admin)'', w)),
      page_wait_for_load_state = (\<lambda>s w. (Inr (), w)),
      page_wait_for_timeout = (\<lambda>ms w. (Inr (), w)),
      locator_wait_for = (\<lambda>loc timeout w. (Inr (), w)),
      locator_click = (\<lambda>loc w. (Inr (), w)),
      locator_is_visible = (\<lambda>loc timeout w. (Inr True, w)),
      locator_fill = (\<lambda>loc text w. (Inr (), w)),
      locator_press = (\<lambda>loc key w. (Inr (), w)),
      browser_close = (\<lambda>w. (Inr (), w)),
      console_messages = (\<lambda>w. []),
      time_time = (\<lambda>w. ((), w)),
      datetime_now_isoformat = (\<lambda>w. (''2026-01-01T00:00:00'', w)),
      float_sub = (\<lambda>a b. ()),
      format_1f = (\<lambda>t. ''0.0''),
      round_2 = (\<lambda>t. t),
      file_open_w = (\<lambda>path w. (Inr (), w)),
      json_dump = (\<lambda>path doc w. (Inr (), w)),
      stdout_error = (\<lambda>s. None)\<rparr>"

text \<open>The state a flow's \<^verbatim>\<open>try\<close> starts in: the flow has printed its two title lines.\<close>

definition announced :: "string \<Rightarrow> ('w, 't) state \<Rightarrow> ('w, 't) state" where
  "announced title st = st\<lparr>stdout := stdout st @ [[], title]\<rparr>"

text \<open>A library call that, if it fills an input, fills it with \<open>msg\<close>.\<close>

definition fills_only :: "string \<Rightarrow> 't call \<Rightarrow> bool" where
  "fills_only msg ev = (case ev of Fill loc text \<Rightarrow> text = msg | _ \<Rightarrow> True)"

text \<open>The same application for a user who has no \<^verbatim>\<open>Admin\<close> button: waiting for it times out.\<close>

definition no_admin_env :: "(unit, unit) env" where
  "no_admin_env =
     ok_env\<lparr>locator_wait_for :=
        (\<lambda>loc timeout w.
           if loc = First ''button:has-text(\"Admin\")''
           then (Inl (Exception ''Timeout 5000ms exceeded.''), w)
           else (Inr (), w))\<rparr>"

text \<open>The same application when the network never becomes idle.\<close>

definition busy_env :: "(unit, unit) env" where
  "busy_env =
     ok_env\<lparr>page_wait_for_load_state :=
        (\<lambda>s w. (Inl (Exception ''Timeout 15000ms exceeded.''), w))\<rparr>"

text \<open>The line the summary loop prints for one entry of the dictionary.\<close>

definition summary_row :: "string \<times> flow_result \<Rightarrow> string" where
  "summary_row kv =
     ''  ['' @ (if passed (snd kv) then ''PASS'' else ''FAIL'') @ '']  '' @ fst kv
       @ (if detail (snd kv) \<noteq> [] then ''  --  '' @ detail (snd kv) else [])"

text \<open>A dictionary with one passed and one failed entry, for the examples.\<close>

definition two_results :: "(unit, unit) state" where
  "two_results =
     snd (record_all [(''demo_login'', True, []), (''dashboard_loads'', False, ''boom'')]
            (initial ()))"

text \<open>Everything the summary prints before it writes the file.\<close>

definition summary_lines ::
  "('w, 't) env \<Rightarrow> 't \<Rightarrow> string list \<Rightarrow> (string \<times> flow_result) list \<Rightarrow> string list" where
  "summary_lines env elapsed errors items =
     [[], rule60 CHR ''='', ''  VERIFICATION SUMMARY'', rule60 CHR ''='']
     @ map summary_row items
     @ [rule60 CHR ''-'',
        tally_line env (count_passed items) (count_passed items + count_failed items)
          (count_failed items) elapsed]
     @ (if errors \<noteq> []
        then [[], ''  Console errors captured: '' @ str_nat (length errors)]
             @ map (\<lambda>err. ''    - '' @ take 120 err) (take 10 errors)
        else [])
     @ [[], ''  Screenshots saved to: '' @ SCREENSHOT_DIR env, rule60 CHR ''='']"

text \<open>A machine on which the browser cannot be launched.\<close>

definition no_browser_env :: "(unit, unit) env" where
  "no_browser_env =
     ok_env\<lparr>chromium_launch := (\<lambda>w. (Inl (Exception ''Executable does not exist''), w))\<rparr>"

text \<open>A frontend that cannot be reached, on a machine where no screenshot can be written.\<close>

definition no_shots_env :: "(unit, unit) env" where
  "no_shots_env =
     ok_env\<lparr>page_goto :=
              (\<lambda>url wait_until timeout w. (Inl (Exception ''net::ERR_CONNECTION_REFUSED''), w)),
            page_screenshot := (\<lambda>path w. (Inl (Exception ''Permission denied''), w))\<rparr>"



text \<open>The application with its backend down.\<close>

definition backend_down_env :: "(unit, unit) env" where
  "backend_down_env =
     ok_env\<lparr>urlopen := (\<lambda>url timeout w. (Inl (Exception ''Connection refused''), w))\<rparr>"


text \<open>
  The application with its backend down, run with a standard output that encodes ASCII only
  (\<^verbatim>\<open>PYTHONIOENCODING=ascii\<close>). Everything else works as in \<open>ok_env\<close>.
\<close>

definition ascii_stdout_env :: "(unit, unit) env" where
  "ascii_stdout_env =
     backend_down_env\<lparr>stdout_error :=
       (\<lambda>s. if list_all (\<lambda>c. of_char c < (128 :: nat)) s then None
            else Some (Exception ''ascii codec cannot encode character u2014''))\<rparr>"

section \<open>Basic facts\<close>

subsection \<open>Statement sequences\<close>

lemma block_single [simp]: "block [m] = m"
  by (rule ext) (simp add: do_seq_def do_bind_def ret_def split: prod.splits sum.splits)

lemma block_cons2 [simp]: "block (m # m' # ms) = do_seq m (block (m' # ms))"
  by simp

declare block.simps(2) [simp del]

subsection \<open>Computations that keep the results\<close>

lemma keepsI: "(\<And>st r st'. m st = (r, st') \<Longrightarrow> results st' = results st) \<Longrightarrow> keeps m"
  unfolding keeps_def
proof
  fix st
  assume h: "\<And>st r st'. m st = (r, st') \<Longrightarrow> results st' = results st"
  show "results (snd (m st)) = results st"
    by (rule h [of st "fst (m st)"]) simp
qed

lemma keepsD: "keeps m \<Longrightarrow> m st = (r, st') \<Longrightarrow> results st' = results st"
proof -
  assume k: "keeps m" and e: "m st = (r, st')"
  from k have "results (snd (m st)) = results st" unfolding keeps_def by (rule spec)
  with e show ?thesis by simp
qed

lemma keeps_ret [simp, intro!]: "keeps (ret x)"
  by (simp add: keeps_def ret_def)

lemma keeps_print_line [simp, intro!]: "keeps (print_line s)"
  by (simp add: keeps_def print_line_def)

lemma keeps_call [simp, intro!]: "keeps (call ev f)"
  by (simp add: keeps_def call_def split: prod.splits)

lemma keeps_ask [simp, intro!]: "keeps (ask f)"
  by (simp add: keeps_def ask_def split: prod.splits)

lemma keeps_do_bind [intro!]:
  assumes "keeps m" and "\<And>x. keeps (f x)"
  shows "keeps (do_bind m f)"
proof (rule keepsI)
  fix st r st'
  assume run: "do_bind m f st = (r, st')"
  obtain r1 s1 where m: "m st = (r1, s1)" by (cases "m st")
  have s1: "results s1 = results st" using assms(1) m by (rule keepsD)
  show "results st' = results st"
  proof (cases r1)
    case (Inl e)
    with run m s1 show ?thesis by (simp add: do_bind_def)
  next
    case (Inr x)
    with run m have "f x s1 = (r, st')" by (simp add: do_bind_def)
    with assms(2) have "results st' = results s1" by (rule keepsD)
    with s1 show ?thesis by simp
  qed
qed

lemma keeps_do_seq [intro!]: "keeps m \<Longrightarrow> keeps n \<Longrightarrow> keeps (do_seq m n)"
  by (simp add: do_seq_def keeps_do_bind)

lemma keeps_stmt [intro!]: "keeps m \<Longrightarrow> keeps (stmt m)"
  by (simp add: stmt_def keeps_do_bind)

lemma keeps_try_except [intro!]:
  assumes "keeps m" and "\<And>exc. keeps (h exc)"
  shows "keeps (try_except m h)"
proof (rule keepsI)
  fix st r st'
  assume run: "try_except m h st = (r, st')"
  obtain r1 s1 where m: "m st = (r1, s1)" by (cases "m st")
  have s1: "results s1 = results st" using assms(1) m by (rule keepsD)
  show "results st' = results st"
  proof (cases r1)
    case (Inr x)
    with run m s1 show ?thesis by (simp add: try_except_def)
  next
    case (Inl e)
    with run m have "h e s1 = (r, st')" by (simp add: try_except_def)
    with assms(2) have "results st' = results s1" by (rule keepsD)
    with s1 show ?thesis by simp
  qed
qed

lemma keeps_page_ops [simp, intro!]:
  "keeps (goto env url wu timeout)"
  "keeps (content env)"
  "keeps (wait_for_load_state env s)"
  "keeps (wait_for_timeout env ms)"
  "keeps (wait_for env loc timeout)"
  "keeps (click env loc)"
  "keeps (is_visible env loc timeout)"
  "keeps (fill env loc text)"
  "keeps (press env loc key)"
  by (simp_all add: goto_def content_def wait_for_load_state_def wait_for_timeout_def
        wait_for_def click_def is_visible_def fill_def press_def)

lemma keeps_screenshot [simp, intro!]: "keeps (screenshot env name)"
  unfolding screenshot_def Let_def by (intro keeps_do_seq keeps_call keeps_ret)

lemma keeps_safe_click [simp, intro!]: "keeps (safe_click env selector timeout)"
  unfolding safe_click_def Let_def
  by (intro keeps_try_except keeps_do_seq keeps_page_ops keeps_ret)

lemma keeps_visit_sub_tab [simp, intro!]: "keeps (visit_sub_tab env label slug n)"
  unfolding visit_sub_tab_def Let_def
  by (intro keeps_try_except keeps_do_bind keeps_page_ops)
     (simp_all add: keeps_do_seq)

lemma keeps_visit_sub_tabs [simp, intro!]: "keeps (visit_sub_tabs env tabs n)"
proof (induction tabs arbitrary: n)
  case Nil
  show ?case by simp
next
  case (Cons tab tabs)
  obtain label slug where tab: "tab = (label, slug)" by (cases tab)
  show ?case unfolding tab visit_sub_tabs.simps
    by (intro keeps_do_bind keeps_visit_sub_tab Cons.IH)
qed

subsection \<open>Computations that record one result\<close>

lemma recordsI:
  assumes "\<And>st exc st'. m st = (Inl exc, st') \<Longrightarrow> results st' = results st"
      and "\<And>st x st'. m st = (Inr x, st') \<Longrightarrow>
             \<exists>res. P res \<and> results st' = DAList.update name res (results st)"
  shows "records name P m"
  unfolding records_def
proof
  fix st
  obtain r s where m: "m st = (r, s)" by (cases "m st")
  show "case m st of
          (Inl exc, st') \<Rightarrow> results st' = results st
        | (Inr x, st') \<Rightarrow> \<exists>res. P res \<and> results st' = DAList.update name res (results st)"
  proof (cases r)
    case (Inl e)
    with m assms(1) [of st e s] show ?thesis by simp
  next
    case (Inr x)
    with m assms(2) [of st x s] show ?thesis by simp
  qed
qed

lemma records_raised:
  "records name P m \<Longrightarrow> m st = (Inl exc, st') \<Longrightarrow> results st' = results st"
proof -
  assume r: "records name P m" and e: "m st = (Inl exc, st')"
  from r have "case m st of
          (Inl exc, st') \<Rightarrow> results st' = results st
        | (Inr x, st') \<Rightarrow> \<exists>res. P res \<and> results st' = DAList.update name res (results st)"
    unfolding records_def by (rule spec)
  with e show ?thesis by simp
qed

lemma records_returned:
  "records name P m \<Longrightarrow> m st = (Inr x, st') \<Longrightarrow>
     \<exists>res. P res \<and> results st' = DAList.update name res (results st)"
proof -
  assume r: "records name P m" and e: "m st = (Inr x, st')"
  from r have "case m st of
          (Inl exc, st') \<Rightarrow> results st' = results st
        | (Inr x, st') \<Rightarrow> \<exists>res. P res \<and> results st' = DAList.update name res (results st)"
    unfolding records_def by (rule spec)
  with e show ?thesis by simp
qed

lemma records_record_result [intro!]:
  "P \<lparr>passed = p, detail = d\<rparr> \<Longrightarrow> records name P (record_result name p d)"
  by (rule recordsI) (auto simp: record_result_def print_line_def)

lemma records_do_bind [intro!]:
  assumes "keeps m" and "\<And>x. records name P (f x)"
  shows "records name P (do_bind m f)"
proof (rule recordsI)
  fix st exc st'
  assume run: "do_bind m f st = (Inl exc, st')"
  obtain r1 s1 where m: "m st = (r1, s1)" by (cases "m st")
  have s1: "results s1 = results st" using assms(1) m by (rule keepsD)
  show "results st' = results st"
  proof (cases r1)
    case (Inl e)
    with run m s1 show ?thesis by (simp add: do_bind_def)
  next
    case (Inr x)
    with run m have "f x s1 = (Inl exc, st')" by (simp add: do_bind_def)
    with assms(2) have "results st' = results s1" by (rule records_raised)
    with s1 show ?thesis by simp
  qed
next
  fix st y st'
  assume run: "do_bind m f st = (Inr y, st')"
  obtain r1 s1 where m: "m st = (r1, s1)" by (cases "m st")
  have s1: "results s1 = results st" using assms(1) m by (rule keepsD)
  show "\<exists>res. P res \<and> results st' = DAList.update name res (results st)"
  proof (cases r1)
    case (Inl e)
    with run m show ?thesis by (simp add: do_bind_def)
  next
    case (Inr x)
    with run m have "f x s1 = (Inr y, st')" by (simp add: do_bind_def)
    with assms(2) have "\<exists>res. P res \<and> results st' = DAList.update name res (results s1)"
      by (rule records_returned)
    with s1 show ?thesis by simp
  qed
qed

lemma records_do_seq [intro!]: "keeps m \<Longrightarrow> records name P n \<Longrightarrow> records name P (do_seq m n)"
  by (simp add: do_seq_def records_do_bind)

lemma records_try_except [intro!]:
  assumes "records name P m" and "\<And>exc. records name P (h exc)"
  shows "records name P (try_except m h)"
proof (rule recordsI)
  fix st exc st'
  assume run: "try_except m h st = (Inl exc, st')"
  obtain r1 s1 where m: "m st = (r1, s1)" by (cases "m st")
  show "results st' = results st"
  proof (cases r1)
    case (Inl e)
    with m assms(1) have s1: "results s1 = results st" by (simp add: records_raised)
    from Inl run m have "h e s1 = (Inl exc, st')" by (simp add: try_except_def)
    with assms(2) have "results st' = results s1" by (rule records_raised)
    with s1 show ?thesis by simp
  next
    case (Inr x)
    with run m show ?thesis by (simp add: try_except_def)
  qed
next
  fix st y st'
  assume run: "try_except m h st = (Inr y, st')"
  obtain r1 s1 where m: "m st = (r1, s1)" by (cases "m st")
  show "\<exists>res. P res \<and> results st' = DAList.update name res (results st)"
  proof (cases r1)
    case (Inl e)
    with m assms(1) have s1: "results s1 = results st" by (simp add: records_raised)
    from Inl run m have "h e s1 = (Inr y, st')" by (simp add: try_except_def)
    with assms(2) have "\<exists>res. P res \<and> results st' = DAList.update name res (results s1)"
      by (rule records_returned)
    with s1 show ?thesis by simp
  next
    case (Inr x)
    with run m have "m st = (Inr y, st')" by (simp add: try_except_def)
    with assms(1) show ?thesis by (rule records_returned)
  qed
qed

lemma records_mono:
  assumes "records name P m" and "\<And>res. P res \<Longrightarrow> Q res"
  shows "records name Q m"
proof (rule recordsI)
  fix st exc st'
  assume "m st = (Inl exc, st')"
  with assms(1) show "results st' = results st" by (rule records_raised)
next
  fix st x st'
  assume "m st = (Inr x, st')"
  with assms(1) have "\<exists>res. P res \<and> results st' = DAList.update name res (results st)"
    by (rule records_returned)
  with assms(2) show "\<exists>res. Q res \<and> results st' = DAList.update name res (results st)"
    by blast
qed

text \<open>The shape every flow has: two printed lines, then the body inside its handler.\<close>

lemma records_flow:
  assumes "records name P body" and "\<And>d. P \<lparr>passed = False, detail = d\<rparr>"
  shows "records name P
           (block
             [print_line a,
              print_line b,
              try_except body
                (\<lambda>exc. block
                   [stmt (screenshot env shot),
                    record_result name False (message exc)])])"
  using assms by (auto intro!: keeps_stmt)

lemma records_demo_login_body:
  "records ''demo_login'' (\<lambda>res. passed res) (flow_demo_login_body env)"
  unfolding flow_demo_login_body_def Let_def by auto

lemma records_dashboard_loads_body:
  "records ''dashboard_loads'' (\<lambda>res. True) (flow_dashboard_loads_body env)"
  unfolding flow_dashboard_loads_body_def Let_def by auto

lemma records_customer_detail_body:
  "records ''customer_detail'' (\<lambda>res. True) (flow_customer_detail_body env)"
  unfolding flow_customer_detail_body_def Let_def by auto

lemma records_operations_hub_body:
  "records ''operations_hub'' (\<lambda>res. True) (flow_operations_hub_body env)"
  unfolding flow_operations_hub_body_def Let_def by auto

lemma records_admin_panel_body:
  "records ''admin_panel'' (\<lambda>res. passed res) (flow_admin_panel_body env)"
  unfolding flow_admin_panel_body_def Let_def by auto

lemma records_agent_center_body:
  "records ''agent_center'' (\<lambda>res. True) (flow_agent_center_body env)"
  unfolding flow_agent_center_body_def Let_def by auto

lemma records_knowledge_base_body:
  "records ''knowledge_base'' (\<lambda>res. True) (flow_knowledge_base_body env)"
  unfolding flow_knowledge_base_body_def Let_def by auto

lemma records_chat_send_body:
  "records ''chat_send''
     (\<lambda>res. passed res \<longrightarrow> detail res = ''Message typed and send attempted'')
     (flow_chat_send_body env)"
  unfolding flow_chat_send_body_def Let_def by auto

section \<open>The helpers\<close>

lemma record_result_apply:
  "record_result name p d st =
     (Inr (),
      st\<lparr>results := DAList.update name \<lparr>passed = p, detail = d\<rparr> (results st),
         stdout := stdout st
           @ [''  ['' @ (if p then ''PASS'' else ''FAIL'') @ ''] '' @ name
                @ (if d \<noteq> [] then '' -- '' @ d else [])]\<rparr>)"
  by (simp add: record_result_def print_line_def)

lemma record_all_returns: "\<exists>st'. record_all calls st = (Inr (), st')"
proof (induction calls arbitrary: st)
  case Nil
  show ?case by (simp add: ret_def)
next
  case (Cons c calls)
  obtain name p d where c: "c = (name, p, d)" by (cases c)
  show ?case unfolding c
    using Cons.IH by (simp add: do_seq_def do_bind_def record_result_apply)
qed

lemma filter_key_absent: "k \<notin> fst ` set al \<Longrightarrow> filter (\<lambda>kv. fst kv = k) al = []"
  by (induction al) auto

lemma filter_key_update:
  "distinct (map fst al) \<Longrightarrow> filter (\<lambda>kv. fst kv = k) (AList.update k v al) = [(k, v)]"
  by (induction al) (auto simp: filter_key_absent)

lemma entries_after_update:
  "filter (\<lambda>kv. fst kv = k) (DAList.impl_of (DAList.update k v d)) = [(k, v)]"
  by (simp add: DAList.update.rep_eq filter_key_update)


text \<open>
  C8. Two calls of \<^verbatim>\<open>record\<close> with the same name, with any calls of \<^verbatim>\<open>record\<close> in
  between: afterwards the dictionary holds exactly one entry for the name, and it is the one
  the second call stored. The second call overwrites; it does not append.
\<close>

theorem record_last_write_wins:
  "filter (\<lambda>kv. fst kv = name)
     (DAList.impl_of
        (results
           (snd (do_seq (record_result name p1 d1)
                   (do_seq (record_all between) (record_result name p2 d2)) st))))
   = [(name, \<lparr>passed = p2, detail = d2\<rparr>)]"
proof -
  obtain s1 where first: "record_result name p1 d1 st = (Inr (), s1)"
    by (simp add: record_result_apply)
  obtain s2 where mid: "record_all between s1 = (Inr (), s2)"
    using record_all_returns by blast
  have "snd (do_seq (record_result name p1 d1)
               (do_seq (record_all between) (record_result name p2 d2)) st)
        = snd (record_result name p2 d2 s2)"
    using first mid by (simp add: do_seq_def do_bind_def)
  then show ?thesis
    by (simp add: record_result_apply entries_after_update)
qed

subsection \<open>Computations whose library calls satisfy a predicate\<close>

lemma emitsI:
  assumes "\<And>st r st'. m st = (r, st') \<Longrightarrow> \<exists>evs. trace st' = trace st @ evs \<and> list_all Q evs"
  shows "emits Q m"
  unfolding emits_def
proof
  fix st
  show "\<exists>evs. trace (snd (m st)) = trace st @ evs \<and> list_all Q evs"
    by (rule assms [of st "fst (m st)"]) simp
qed

lemma emitsD:
  "emits Q m \<Longrightarrow> m st = (r, st') \<Longrightarrow> \<exists>evs. trace st' = trace st @ evs \<and> list_all Q evs"
proof -
  assume k: "emits Q m" and e: "m st = (r, st')"
  from k have "\<exists>evs. trace (snd (m st)) = trace st @ evs \<and> list_all Q evs"
    unfolding emits_def by (rule spec)
  with e show ?thesis by simp
qed

lemma emits_ret [simp, intro!]: "emits Q (ret x)"
  by (simp add: emits_def ret_def)

lemma emits_print_line [simp, intro!]: "emits Q (print_line s)"
  by (simp add: emits_def print_line_def)

lemma emits_ask [simp, intro!]: "emits Q (ask f)"
  by (simp add: emits_def ask_def split: prod.splits)

lemma emits_record_result [simp, intro!]: "emits Q (record_result name p d)"
  by (simp add: emits_def record_result_apply)

lemma emits_call [intro!]: "Q ev \<Longrightarrow> emits Q (call ev f)"
  by (simp add: emits_def call_def split: prod.splits)

lemma emits_do_bind [intro!]:
  assumes "emits Q m" and "\<And>x. emits Q (f x)"
  shows "emits Q (do_bind m f)"
proof (rule emitsI)
  fix st r st'
  assume run: "do_bind m f st = (r, st')"
  obtain r1 sa where m: "m st = (r1, sa)" by (cases "m st")
  from assms(1) m obtain evs1 where sa: "trace sa = trace st @ evs1" "list_all Q evs1"
    using emitsD by blast
  show "\<exists>evs. trace st' = trace st @ evs \<and> list_all Q evs"
  proof (cases r1)
    case (Inl e)
    with run m sa show ?thesis by (auto simp: do_bind_def)
  next
    case (Inr x)
    with run m have "f x sa = (r, st')" by (simp add: do_bind_def)
    with assms(2) obtain evs2 where "trace st' = trace sa @ evs2" "list_all Q evs2"
      using emitsD by blast
    with sa have "trace st' = trace st @ (evs1 @ evs2) \<and> list_all Q (evs1 @ evs2)" by simp
    then show ?thesis by blast
  qed
qed

lemma emits_do_seq [intro!]: "emits Q m \<Longrightarrow> emits Q n \<Longrightarrow> emits Q (do_seq m n)"
  by (simp add: do_seq_def emits_do_bind)

lemma emits_stmt [intro!]: "emits Q m \<Longrightarrow> emits Q (stmt m)"
  by (simp add: stmt_def emits_do_bind)

lemma emits_try_except [intro!]:
  assumes "emits Q m" and "\<And>exc. emits Q (h exc)"
  shows "emits Q (try_except m h)"
proof (rule emitsI)
  fix st r st'
  assume run: "try_except m h st = (r, st')"
  obtain r1 sa where m: "m st = (r1, sa)" by (cases "m st")
  from assms(1) m obtain evs1 where sa: "trace sa = trace st @ evs1" "list_all Q evs1"
    using emitsD by blast
  show "\<exists>evs. trace st' = trace st @ evs \<and> list_all Q evs"
  proof (cases r1)
    case (Inr x)
    with run m sa show ?thesis by (auto simp: try_except_def)
  next
    case (Inl e)
    with run m have "h e sa = (r, st')" by (simp add: try_except_def)
    with assms(2) obtain evs2 where "trace st' = trace sa @ evs2" "list_all Q evs2"
      using emitsD by blast
    with sa have "trace st' = trace st @ (evs1 @ evs2) \<and> list_all Q (evs1 @ evs2)" by simp
    then show ?thesis by blast
  qed
qed

lemmas page_op_defs =
  goto_def content_def wait_for_load_state_def wait_for_timeout_def wait_for_def click_def
  is_visible_def fill_def press_def

lemma emits_chat_send:
  "emits (fills_only test_message) (flow_chat_send env)"
  unfolding flow_chat_send_def flow_chat_send_body_def safe_click_def screenshot_def Let_def
    page_op_defs
  by (auto simp: fills_only_def)

section \<open>The flows\<close>

lemma flow_admin_panel_run:
  "flow_admin_panel env st =
     try_except (flow_admin_panel_body env)
       (\<lambda>exc. block
          [stmt (screenshot env ''05_admin_error''),
           record_result ''admin_panel'' False (message exc)])
       (announced ''--- Flow 5: Admin Panel Access ---'' st)"
  by (simp add: flow_admin_panel_def announced_def do_seq_def do_bind_def print_line_def)

lemma lookup_update_same: "DAList.lookup (DAList.update k v d) k = Some v"
  by (simp add: DAList.lookup.rep_eq DAList.update.rep_eq update_conv')

lemma lookup_unrecorded:
  "name \<notin> set (recorded st) \<Longrightarrow> DAList.lookup (results st) name = None"
  by (simp add: recorded_def DAList.lookup.rep_eq map_of_eq_None_iff)

text \<open>
  C5. Flow 5 records a pass when the \<^verbatim>\<open>Admin\<close> control is absent (the click helper
  returns \<^verbatim>\<open>False\<close>), with a detail that contains \<^verbatim>\<open>not visible\<close>, and records a pass when
  the control was clicked and the page shows settings content. A failed result for
  \<^verbatim>\<open>admin_panel\<close> comes only from the handler: the body of the flow raised, and the
  detail is the message of that exception.
\<close>

theorem admin_panel_outcomes:
  "(safe_click env ''button:has-text(\"Admin\")'' 5000
        (announced ''--- Flow 5: Admin Panel Access ---'' st) = (Inr False, sa)
      \<and> screenshot env ''05_admin_not_visible'' sa = (Inr path, sb)
    \<longrightarrow> flow_admin_panel env st
          = record_result ''admin_panel'' True
              ''Admin button not visible (expected for non-admin/demo users)'' sb
        \<and> str_in ''not visible''
              ''Admin button not visible (expected for non-admin/demo users)'')
   \<and> (safe_click env ''button:has-text(\"Admin\")'' 5000
        (announced ''--- Flow 5: Admin Panel Access ---'' st) = (Inr True, ta)
      \<and> wait_for_load_state env ''networkidle'' ta = (Inr (), tb)
      \<and> wait_for_timeout env 1000 tb = (Inr (), tc)
      \<and> screenshot env ''05_admin_panel'' tc = (Inr path', td)
      \<and> content env td = (Inr c, te)
      \<and> any_in [''admin'', ''settings'', ''organization'', ''users'', ''config''] (lower c)
    \<longrightarrow> flow_admin_panel env st
          = record_result ''admin_panel'' True ''Admin panel loaded with settings content'' te)
   \<and> (flow_admin_panel env st = (r, st')
      \<and> ''admin_panel'' \<notin> set (recorded st)
      \<and> DAList.lookup (results st') ''admin_panel'' = Some res
      \<and> \<not> passed res
    \<longrightarrow> (\<exists>exc u. flow_admin_panel_body env
                     (announced ''--- Flow 5: Admin Panel Access ---'' st) = (Inl exc, u)
                 \<and> detail res = message exc))"
proof (intro conjI impI)
  assume "safe_click env ''button:has-text(\"Admin\")'' 5000
            (announced ''--- Flow 5: Admin Panel Access ---'' st) = (Inr False, sa)
          \<and> screenshot env ''05_admin_not_visible'' sa = (Inr path, sb)"
  then show "flow_admin_panel env st
      = record_result ''admin_panel'' True
          ''Admin button not visible (expected for non-admin/demo users)'' sb"
    by (simp add: flow_admin_panel_run flow_admin_panel_body_def try_except_def do_bind_def
          do_seq_def stmt_def ret_def record_result_apply)
next
  show "str_in ''not visible'' ''Admin button not visible (expected for non-admin/demo users)''"
    by simp
next
  assume "safe_click env ''button:has-text(\"Admin\")'' 5000
        (announced ''--- Flow 5: Admin Panel Access ---'' st) = (Inr True, ta)
      \<and> wait_for_load_state env ''networkidle'' ta = (Inr (), tb)
      \<and> wait_for_timeout env 1000 tb = (Inr (), tc)
      \<and> screenshot env ''05_admin_panel'' tc = (Inr path', td)
      \<and> content env td = (Inr c, te)
      \<and> any_in [''admin'', ''settings'', ''organization'', ''users'', ''config''] (lower c)"
  then show "flow_admin_panel env st
      = record_result ''admin_panel'' True ''Admin panel loaded with settings content'' te"
    by (simp add: flow_admin_panel_run flow_admin_panel_body_def try_except_def do_bind_def
          do_seq_def stmt_def ret_def record_result_apply Let_def)
next
  let ?s0 = "announced ''--- Flow 5: Admin Panel Access ---'' st"
  assume a: "flow_admin_panel env st = (r, st')
      \<and> ''admin_panel'' \<notin> set (recorded st)
      \<and> DAList.lookup (results st') ''admin_panel'' = Some res
      \<and> \<not> passed res"
  have before: "DAList.lookup (results ?s0) ''admin_panel'' = None"
    using a by (simp add: lookup_unrecorded announced_def recorded_def)
  obtain r1 u where body: "flow_admin_panel_body env ?s0 = (r1, u)"
    by (cases "flow_admin_panel_body env ?s0")
  show "\<exists>exc u. flow_admin_panel_body env ?s0 = (Inl exc, u) \<and> detail res = message exc"
  proof (cases r1)
    case (Inr x)
    with body obtain res' where res': "passed res'"
        "results u = DAList.update ''admin_panel'' res' (results ?s0)"
      using records_returned [OF records_admin_panel_body] by blast
    from Inr body a have "st' = u" by (simp add: flow_admin_panel_run try_except_def)
    with res' a show ?thesis by (simp add: lookup_update_same)
  next
    case (Inl exc)
    with body have u: "results u = results ?s0"
      using records_raised [OF records_admin_panel_body] by blast
    obtain r2 v where shot: "screenshot env ''05_admin_error'' u = (r2, v)"
      by (cases "screenshot env ''05_admin_error'' u")
    have v: "results v = results u" using keepsD [OF keeps_screenshot shot] .
    show ?thesis
    proof (cases r2)
      case failed: (Inl e2)
      with Inl body shot a have "st' = v"
        by (simp add: flow_admin_panel_run try_except_def do_seq_def do_bind_def stmt_def)
      with u v before a show ?thesis by simp
    next
      case (Inr p)
      with Inl body shot a
      have "results st' = DAList.update ''admin_panel''
              \<lparr>passed = False, detail = message exc\<rparr> (results v)"
        by (auto simp: flow_admin_panel_run try_except_def do_seq_def do_bind_def stmt_def
              ret_def record_result_apply)
      with a have "res = \<lparr>passed = False, detail = message exc\<rparr>"
        by (simp add: lookup_update_same)
      with Inl body show ?thesis by simp
    qed
  qed
qed

lemmas run_defs =
  ret_def do_bind_def do_seq_def stmt_def try_except_def try_finally_def call_def ask_def
  print_line_def record_result_def screenshot_def safe_click_def page_op_defs Let_def
  announced_def initial_def

theorem admin_panel_outcomes_witness:
  "fst (flow_admin_panel no_admin_env (initial ())) = Inr ()
   \<and> DAList.lookup (results (snd (flow_admin_panel no_admin_env (initial ())))) ''admin_panel''
       = Some \<lparr>passed = True,
               detail = ''Admin button not visible (expected for non-admin/demo users)''\<rparr>
   \<and> fst (flow_admin_panel ok_env (initial ())) = Inr ()
   \<and> DAList.lookup (results (snd (flow_admin_panel ok_env (initial ())))) ''admin_panel''
       = Some \<lparr>passed = True, detail = ''Admin panel loaded with settings content''\<rparr>
   \<and> DAList.lookup (results (snd (flow_admin_panel busy_env (initial ())))) ''admin_panel''
       = Some \<lparr>passed = False, detail = ''Timeout 15000ms exceeded.''\<rparr>
   \<and> (\<exists>exc u. flow_admin_panel_body busy_env
                  (announced ''--- Flow 5: Admin Panel Access ---'' (initial ())) = (Inl exc, u)
              \<and> message exc = ''Timeout 15000ms exceeded.'')"
proof -
  let ?sel = "''button:has-text(\"Admin\")''"
  let ?s0 = "announced ''--- Flow 5: Admin Panel Access ---'' (initial ()) :: (unit, unit) state"
  let ?sa = "snd (safe_click no_admin_env ?sel 5000 ?s0)"
  let ?sb = "snd (screenshot no_admin_env ''05_admin_not_visible'' ?sa)"
  let ?ta = "snd (safe_click ok_env ?sel 5000 ?s0)"
  let ?tb = "snd (wait_for_load_state ok_env ''networkidle'' ?ta)"
  let ?tc = "snd (wait_for_timeout ok_env 1000 ?tb)"
  let ?td = "snd (screenshot ok_env ''05_admin_panel'' ?tc)"
  let ?te = "snd (content ok_env ?td)"
  have absent: "fst (flow_admin_panel no_admin_env (initial ())) = Inr ()
     \<and> DAList.lookup (results (snd (flow_admin_panel no_admin_env (initial ())))) ''admin_panel''
         = Some \<lparr>passed = True,
                 detail = ''Admin button not visible (expected for non-admin/demo users)''\<rparr>"
    using admin_panel_outcomes [where env = no_admin_env and st = "initial ()"
        and sa = ?sa and sb = ?sb
        and path = "''/repo/test-screenshots/prd7-verification/05_admin_not_visible.png''"]
    by (simp add: run_defs no_admin_env_def ok_env_def lookup_update_same)
  have present: "fst (flow_admin_panel ok_env (initial ())) = Inr ()
     \<and> DAList.lookup (results (snd (flow_admin_panel ok_env (initial ())))) ''admin_panel''
         = Some \<lparr>passed = True, detail = ''Admin panel loaded with settings content''\<rparr>"
    using admin_panel_outcomes [where env = ok_env and st = "initial ()"
        and ta = ?ta and tb = ?tb and tc = ?tc and td = ?td and te = ?te
        and path' = "''/repo/test-screenshots/prd7-verification/05_admin_panel.png''"
        and c = "''Customer Dashboard (admin)''"]
    by (simp add: run_defs ok_env_def lookup_update_same any_in_def lower_def lower_char_def)
  have busy: "DAList.lookup (results (snd (flow_admin_panel busy_env (initial ()))))
                ''admin_panel''
         = Some \<lparr>passed = False, detail = ''Timeout 15000ms exceeded.''\<rparr>"
    by (simp add: flow_admin_panel_run flow_admin_panel_body_def run_defs busy_env_def
          ok_env_def lookup_update_same)
  have "\<exists>exc u. flow_admin_panel_body busy_env ?s0 = (Inl exc, u)
          \<and> detail \<lparr>passed = False, detail = ''Timeout 15000ms exceeded.''\<rparr> = message exc"
    using busy admin_panel_outcomes [where env = busy_env and st = "initial ()"
        and r = "fst (flow_admin_panel busy_env (initial ()))"
        and st' = "snd (flow_admin_panel busy_env (initial ()))"
        and res = "\<lparr>passed = False, detail = ''Timeout 15000ms exceeded.''\<rparr>"]
    by (simp add: recorded_def initial_def DAList.empty.rep_eq)
  with absent present busy show ?thesis by auto
qed

lemma records_chat_send:
  "records ''chat_send''
     (\<lambda>res. passed res \<longrightarrow> detail res = ''Message typed and send attempted'')
     (flow_chat_send env)"
  unfolding flow_chat_send_def
  by (rule records_flow [OF records_chat_send_body]) simp

text \<open>
  C7. Whatever flow 8 fills into an input, it fills the literal test message; and when the
  flow returns it has stored one result under \<^verbatim>\<open>chat_send\<close>, whose detail, if the result is
  a pass, is \<^verbatim>\<open>Message typed and send attempted\<close>, which contains both \<^verbatim>\<open>typed\<close> and
  \<^verbatim>\<open>attempted\<close>.
\<close>

theorem chat_send_fill_and_detail:
  assumes "flow_chat_send env st = (r, st')"
  shows "(\<forall>loc msg. Fill loc msg \<in> set (drop (length (trace st)) (trace st'))
            \<longrightarrow> msg = ''Hello, this is an E2E verification test message.'')
       \<and> (r = Inr ()
            \<longrightarrow> (\<exists>res. results st' = DAList.update ''chat_send'' res (results st)
                   \<and> (passed res
                        \<longrightarrow> detail res = ''Message typed and send attempted''
                          \<and> str_in ''typed'' (detail res)
                          \<and> str_in ''attempted'' (detail res))))"
proof (intro conjI allI impI)
  fix loc msg
  assume fill: "Fill loc msg \<in> set (drop (length (trace st)) (trace st'))"
  from emitsD [OF emits_chat_send assms]
  obtain evs where evs: "trace st' = trace st @ evs" "list_all (fills_only test_message) evs"
    by blast
  from fill evs have "msg = test_message"
    by (fastforce simp: list_all_iff fills_only_def)
  then show "msg = ''Hello, this is an E2E verification test message.''"
    by (simp add: test_message_def)
next
  assume "r = Inr ()"
  with assms records_returned [OF records_chat_send]
  obtain res where res: "passed res \<longrightarrow> detail res = ''Message typed and send attempted''"
      "results st' = DAList.update ''chat_send'' res (results st)"
    by blast
  have "passed res \<longrightarrow> str_in ''typed'' (detail res) \<and> str_in ''attempted'' (detail res)"
    using res(1) by simp
  with res show "\<exists>res. results st' = DAList.update ''chat_send'' res (results st)
       \<and> (passed res
            \<longrightarrow> detail res = ''Message typed and send attempted''
              \<and> str_in ''typed'' (detail res)
              \<and> str_in ''attempted'' (detail res))"
    by blast
qed

theorem chat_send_fill_and_detail_witness:
  "fst (flow_chat_send ok_env (initial ())) = Inr ()
   \<and> (\<exists>loc. Fill loc ''Hello, this is an E2E verification test message.''
              \<in> set (trace (snd (flow_chat_send ok_env (initial ())))))
   \<and> list_all (fills_only ''Hello, this is an E2E verification test message.'')
         (trace (snd (flow_chat_send ok_env (initial ()))))
   \<and> DAList.lookup (results (snd (flow_chat_send ok_env (initial ())))) ''chat_send''
       = Some \<lparr>passed = True, detail = ''Message typed and send attempted''\<rparr>"
proof -
  have run: "fst (flow_chat_send ok_env (initial ())) = Inr ()
     \<and> (\<exists>loc. Fill loc ''Hello, this is an E2E verification test message.''
              \<in> set (trace (snd (flow_chat_send ok_env (initial ())))))
     \<and> DAList.lookup (results (snd (flow_chat_send ok_env (initial ())))) ''chat_send''
       = Some \<lparr>passed = True, detail = ''Message typed and send attempted''\<rparr>"
    by (simp add: flow_chat_send_def flow_chat_send_body_def test_message_def run_defs
          ok_env_def lookup_update_same)
  obtain r st' where eq: "flow_chat_send ok_env (initial ()) = (r, st')"
    by (cases "flow_chat_send ok_env (initial ()) :: (exn + unit) \<times> (unit, unit) state")
  have "trace (initial () :: (unit, unit) state) = []" by (simp add: initial_def)
  with chat_send_fill_and_detail [OF eq]
  have "\<forall>loc msg. Fill loc msg \<in> set (trace st')
         \<longrightarrow> msg = ''Hello, this is an E2E verification test message.''"
    by simp
  then have "list_all (fills_only ''Hello, this is an E2E verification test message.'')
      (trace st')"
    by (auto simp: list_all_iff fills_only_def split: call.splits)
  with run eq show ?thesis by simp
qed

section \<open>The summary\<close>

lemma print_line_apply: "print_line s st = (Inr (), st\<lparr>stdout := stdout st @ [s]\<rparr>)"
  by (simp add: print_line_def)

lemma tally_run:
  "tally items p f st =
     (Inr (p + count_passed items, f + count_failed items),
      st\<lparr>stdout := stdout st @ map summary_row items\<rparr>)"
proof (induction items arbitrary: p f st)
  case Nil
  show ?case by (simp add: ret_def count_passed_def count_failed_def)
next
  case (Cons kv items)
  obtain name info where kv: "kv = (name, info)" by (cases kv)
  show ?case unfolding kv
    by (simp add: Cons.IH do_seq_def do_bind_def print_line_apply summary_row_def
          count_passed_def count_failed_def)
qed

lemma count_passed_failed: "count_passed items + count_failed items = length items"
  unfolding count_passed_def count_failed_def
  by (induction items) auto

lemma block_prints_map:
  "block (map (\<lambda>x. print_line (g x)) xs) st
     = (Inr (), st\<lparr>stdout := stdout st @ map g xs\<rparr>)"
proof (induction xs arbitrary: st)
  case Nil
  show ?case by (simp add: ret_def)
next
  case (Cons x xs)
  have "block (map (\<lambda>x. print_line (g x)) (x # xs)) st
          = block (map (\<lambda>x. print_line (g x)) xs) (st\<lparr>stdout := stdout st @ [g x]\<rparr>)"
    by (simp add: block.simps(2) do_seq_def do_bind_def print_line_apply)
  then show ?case by (simp add: Cons.IH)
qed

text \<open>The printed part never raises, touches only standard output, and returns the counts.\<close>

lemma print_summary_run:
  "print_summary env elapsed errors st
     = (Inr (count_passed (DAList.impl_of (results st)),
             count_failed (DAList.impl_of (results st))),
        st\<lparr>stdout := stdout st
             @ summary_lines env elapsed errors (DAList.impl_of (results st))\<rparr>)"
proof (cases "errors = []")
  case True
  then show ?thesis
    by (simp add: print_summary_def summary_lines_def tally_run do_seq_def do_bind_def ret_def
          print_line_apply Let_def)
next
  case False
  then show ?thesis
    by (simp add: print_summary_def summary_lines_def tally_run block_prints_map block.simps(2)
          do_seq_def do_bind_def ret_def print_line_apply Let_def)
qed

lemma tally_line_printed:
  "tally_line env (count_passed items) (count_passed items + count_failed items)
      (count_failed items) elapsed
     \<in> set (summary_lines env elapsed errors items)"
  by (simp add: summary_lines_def)

text \<open>The written part: what it can add to the trace, and that it keeps the results.\<close>

lemma write_summary_run:
  assumes "write_summary env elapsed errors p f st = (r, st')"
  shows "results st' = results st
       \<and> (\<exists>evs. trace st' = trace st @ evs
            \<and> (\<forall>path doc. JsonDump path doc \<in> set evs
                  \<longrightarrow> j_total doc = p + f \<and> j_passed doc = p \<and> j_failed doc = f
                    \<and> j_results doc = DAList.impl_of (results st)))
       \<and> (r = Inr ()
            \<longrightarrow> (\<exists>doc. JsonDump (SCREENSHOT_DIR env @ ''/summary.json'') doc \<in> set (trace st')
                   \<and> j_total doc = p + f \<and> j_passed doc = p \<and> j_failed doc = f
                   \<and> j_results doc = DAList.impl_of (results st)))"
proof -
  let ?path = "SCREENSHOT_DIR env @ ''/summary.json''"
  obtain r1 w1 where opened: "file_open_w env ?path (world st) = (r1, w1)"
    by (cases "file_open_w env ?path (world st)")
  show ?thesis
  proof (cases r1)
    case (Inl e)
    with assms opened show ?thesis
      by (auto simp: write_summary_def Let_def do_seq_def do_bind_def call_def)
  next
    case opened_ok: (Inr u)
    obtain now w2 where clock: "datetime_now_isoformat env w1 = (now, w2)"
      by (cases "datetime_now_isoformat env w1")
    let ?doc = "\<lparr>j_timestamp = now, j_frontend_url = FRONTEND_URL env,
        j_backend_url = BACKEND_URL env, j_total = p + f, j_passed = p, j_failed = f,
        j_elapsed_seconds = round_2 env elapsed, j_results = DAList.impl_of (results st),
        j_console_errors = take 20 errors\<rparr>"
    obtain r3 w3 where dumped: "json_dump env ?path ?doc w2 = (r3, w3)"
      by (cases "json_dump env ?path ?doc w2")
    show ?thesis
    proof (cases r3)
      case (Inl e)
      with assms opened opened_ok clock dumped show ?thesis
        by (auto simp: write_summary_def Let_def do_seq_def do_bind_def call_def ask_def)
    next
      case (Inr v)
      with assms opened opened_ok clock dumped show ?thesis
        by (auto simp: write_summary_def Let_def do_seq_def do_bind_def call_def ask_def
              print_line_apply)
    qed
  qed
qed

text \<open>
  C2. Whenever the summary is computed, from any \<^verbatim>\<open>results\<close> dictionary: the printed tally
  line shows \<open>p\<close> passed out of \<open>p + f\<close> and \<open>f\<close> failed, where \<open>p\<close> and \<open>f\<close> are the numbers
  of passed and of failed entries of the dictionary, and \<open>p + f\<close> is the number of its
  entries; the document handed to \<^verbatim>\<open>json.dump\<close> has \<^verbatim>\<open>total = passed + failed\<close>, its
  \<^verbatim>\<open>results\<close> are the dictionary, and \<^verbatim>\<open>total\<close> is the number of its entries.
\<close>

theorem summary_counts:
  assumes "report env elapsed errors st = (r, st')"
  shows "tally_line env (count_passed (DAList.impl_of (results st)))
             (count_passed (DAList.impl_of (results st))
                + count_failed (DAList.impl_of (results st)))
             (count_failed (DAList.impl_of (results st))) elapsed
           \<in> set (stdout st')
       \<and> count_passed (DAList.impl_of (results st)) + count_failed (DAList.impl_of (results st))
           = length (DAList.impl_of (results st))
       \<and> (\<forall>path doc. JsonDump path doc \<in> set (drop (length (trace st)) (trace st'))
            \<longrightarrow> j_total doc = j_passed doc + j_failed doc
              \<and> length (j_results doc) = j_total doc
              \<and> j_results doc = DAList.impl_of (results st)
              \<and> j_passed doc = count_passed (DAList.impl_of (results st))
              \<and> j_failed doc = count_failed (DAList.impl_of (results st)))"
proof -
  let ?items = "DAList.impl_of (results st)"
  let ?p = "count_passed ?items" and ?f = "count_failed ?items"
  let ?ls = "summary_lines env elapsed errors ?items"
  have printed: "print_summary env elapsed errors st
          = (Inr (?p, ?f), st\<lparr>stdout := stdout st @ ?ls\<rparr>)"
    by (rule print_summary_run)
  have line: "tally_line env ?p (?p + ?f) ?f elapsed \<in> set ?ls"
    by (rule tally_line_printed)
  let ?s1 = "st\<lparr>stdout := stdout st @ ?ls\<rparr>"
  obtain r2 s2 where written: "write_summary env elapsed errors ?p ?f ?s1 = (r2, s2)"
    by (cases "write_summary env elapsed errors ?p ?f ?s1")
  from write_summary_run [OF written]
  obtain evs where evs: "trace s2 = trace st @ evs"
      "\<forall>path doc. JsonDump path doc \<in> set evs
          \<longrightarrow> j_total doc = ?p + ?f \<and> j_passed doc = ?p \<and> j_failed doc = ?f
            \<and> j_results doc = ?items"
    by auto
  have out: "\<exists>more. stdout s2 = stdout st @ ?ls @ more"
    using written
    by (auto simp: write_summary_def Let_def do_seq_def do_bind_def call_def ask_def
          print_line_apply split: prod.splits sum.splits)
  have final: "st' = s2"
    using assms printed written
    by (auto simp: report_def do_bind_def do_seq_def ret_def split: sum.splits)
  have total: "?p + ?f = length ?items" by (rule count_passed_failed)
  show ?thesis
  proof (intro conjI allI impI)
    show "tally_line env ?p (?p + ?f) ?f elapsed \<in> set (stdout st')"
      using out line final by auto
  next
    show "?p + ?f = length ?items" by (rule total)
  next
    fix path doc
    assume "JsonDump path doc \<in> set (drop (length (trace st)) (trace st'))"
    with final evs(1) have "JsonDump path doc \<in> set evs" by simp
    with evs(2) have d: "j_total doc = ?p + ?f" "j_passed doc = ?p" "j_failed doc = ?f"
        "j_results doc = ?items"
      by blast+
    from d show "j_total doc = j_passed doc + j_failed doc" by simp
    from d total show "length (j_results doc) = j_total doc" by simp
    from d show "j_results doc = ?items" by simp
    from d show "j_passed doc = ?p" by simp
    from d show "j_failed doc = ?f" by simp
  qed
qed

lemmas dict_defs = DAList.update.rep_eq DAList.empty.rep_eq DAList.lookup.rep_eq

theorem summary_counts_witness:
  "fst (report ok_env () [] two_results) = Inr 1
   \<and> ''  1/2 passed, 1 failed  (0.0s)'' \<in> set (stdout (snd (report ok_env () [] two_results)))
   \<and> (\<exists>doc. JsonDump ''/repo/test-screenshots/prd7-verification/summary.json'' doc
               \<in> set (trace (snd (report ok_env () [] two_results)))
            \<and> j_total doc = 2 \<and> j_passed doc = 1 \<and> j_failed doc = 1
            \<and> map fst (j_results doc) = [''demo_login'', ''dashboard_loads''])"
proof -
  have items: "DAList.impl_of (results two_results)
      = [(''demo_login'', \<lparr>passed = True, detail = []\<rparr>),
         (''dashboard_loads'', \<lparr>passed = False, detail = ''boom''\<rparr>)]"
    by (simp add: two_results_def run_defs dict_defs)
  have start: "trace two_results = []"
    by (simp add: two_results_def run_defs)
  have counts: "count_passed (DAList.impl_of (results two_results)) = 1"
      "count_failed (DAList.impl_of (results two_results)) = 1"
    by (simp_all add: items count_passed_def count_failed_def)
  have run: "fst (report ok_env () [] two_results) = Inr 1
     \<and> trace (snd (report ok_env () [] two_results))
         = [OpenWrite ''/repo/test-screenshots/prd7-verification/summary.json'',
            JsonDump ''/repo/test-screenshots/prd7-verification/summary.json''
              \<lparr>j_timestamp = ''2026-01-01T00:00:00'',
               j_frontend_url = ''http://localhost:3002'',
               j_backend_url = ''http://localhost:3001'',
               j_total = 2, j_passed = 1, j_failed = 1, j_elapsed_seconds = (),
               j_results = DAList.impl_of (results two_results),
               j_console_errors = []\<rparr>]"
    by (simp add: report_def print_summary_run write_summary_def counts start run_defs ok_env_def)
  have line: "tally_line ok_env 1 (1 + 1) 1 () = ''  1/2 passed, 1 failed  (0.0s)''"
    by (simp add: tally_line_def str_nat.simps ok_env_def)
  have eq: "report ok_env () [] two_results
      = (fst (report ok_env () [] two_results), snd (report ok_env () [] two_results))"
    by simp
  have "tally_line ok_env (count_passed (DAList.impl_of (results two_results)))
          (count_passed (DAList.impl_of (results two_results))
             + count_failed (DAList.impl_of (results two_results)))
          (count_failed (DAList.impl_of (results two_results))) ()
        \<in> set (stdout (snd (report ok_env () [] two_results)))"
    using summary_counts [OF eq] by (rule conjunct1)
  then have printed: "''  1/2 passed, 1 failed  (0.0s)''
        \<in> set (stdout (snd (report ok_env () [] two_results)))"
    unfolding counts line .
  have dumped: "\<exists>doc. JsonDump ''/repo/test-screenshots/prd7-verification/summary.json'' doc
               \<in> set (trace (snd (report ok_env () [] two_results)))
            \<and> j_total doc = 2 \<and> j_passed doc = 1 \<and> j_failed doc = 1
            \<and> map fst (j_results doc) = [''demo_login'', ''dashboard_loads'']"
    by (simp add: run items)
  from run printed dumped show ?thesis by blast
qed

section \<open>The runner\<close>

subsection \<open>Its three parts\<close>

lemma run_verification_parts:
  "run_verification env =
     do_bind (prelude env) (\<lambda>start. do_seq (browser_session env) (wrap_up env start))"
  by (rule ext)
     (simp add: run_verification_def prelude_def wrap_up_def do_seq_def do_bind_def ret_def
        split: prod.splits sum.splits)

lemma do_bind_returned:
  assumes "do_bind m f st = (Inr y, st')"
  shows "\<exists>x s. m st = (Inr x, s) \<and> f x s = (Inr y, st')"
proof -
  obtain r s where m: "m st = (r, s)" by (cases "m st")
  show ?thesis
  proof (cases r)
    case (Inl e)
    with assms m show ?thesis by (simp add: do_bind_def)
  next
    case (Inr x)
    with assms m show ?thesis by (simp add: do_bind_def)
  qed
qed

lemma call_ok:
  "fst (f (world st)) = Inr x \<Longrightarrow>
     call ev f st = (Inr x, st\<lparr>world := snd (f (world st)), trace := trace st @ [ev]\<rparr>)"
  by (cases "f (world st)") (simp add: call_def)

lemma call_raised:
  "fst (f (world st)) = Inl exc \<Longrightarrow>
     call ev f st = (Inl exc, st\<lparr>world := snd (f (world st)), trace := trace st @ [ev]\<rparr>)"
  by (cases "f (world st)") (simp add: call_def)

lemma ask_apply:
  "ask f st = (Inr (fst (f (world st))), st\<lparr>world := snd (f (world st))\<rparr>)"
  by (cases "f (world st)") (simp add: ask_def)

lemma print_header_run:
  "\<exists>s. print_header env st = (Inr (), s) \<and> results s = results st \<and> trace s = trace st"
  by (simp add: print_header_def ask_apply print_line_apply do_seq_def do_bind_def)

lemma keeps_raise_exn [simp, intro!]: "keeps (raise_exn exc)"
  by (simp add: keeps_def raise_exn_def)

lemma keeps_print_encoded [simp, intro!]: "keeps (print_encoded env s)"
  by (cases "stdout_error env s") (simp_all add: print_encoded_def)

lemma print_encoded_apply:
  "print_encoded env s st
     = (case stdout_error env s of None \<Rightarrow> (Inr (), st\<lparr>stdout := stdout st @ [s]\<rparr>)
        | Some exc \<Rightarrow> (Inl exc, st))"
  by (simp add: print_encoded_def print_line_def raise_exn_def split: option.splits)

text \<open>The only library call of the prelude is the preflight request, and it records nothing.\<close>

lemma prelude_effect:
  assumes "prelude env st = (r, s)"
  shows "results s = results st
       \<and> trace s = trace st @ [UrlOpen (BACKEND_URL env @ ''/api/health'') 5]"
proof -
  let ?url = "BACKEND_URL env @ ''/api/health''"
  from print_header_run [of env "snd (ask (time_time env) st)"]
  obtain s1 where header: "print_header env (snd (ask (time_time env) st)) = (Inr (), s1)"
      "results s1 = results st" "trace s1 = trace st"
    by (auto simp: ask_apply)
  obtain r1 w where req: "urlopen env ?url 5 (world s1) = (r1, w)"
    by (cases "urlopen env ?url 5 (world s1)")
  show ?thesis
  proof (cases r1)
    case (Inl exc)
    with req header assms show ?thesis
      by (cases "stdout_error env continuing_line")
         (auto simp: prelude_def preflight_def ask_apply Let_def try_except_def do_seq_def
            do_bind_def ret_def call_def print_line_apply print_encoded_apply)
  next
    case (Inr status)
    with req header assms show ?thesis
      by (auto simp: prelude_def preflight_def ask_apply Let_def try_except_def do_seq_def
            do_bind_def ret_def call_def print_line_apply)
  qed
qed

text \<open>
  The prelude returns when standard output can encode the second line of the warning. (It
  also returns when the preflight request succeeds; that is not needed below.)
\<close>

lemma prelude_returns:
  assumes "stdout_error env continuing_line = None"
  shows "\<exists>start s. prelude env st = (Inr start, s)"
proof -
  let ?url = "BACKEND_URL env @ ''/api/health''"
  from print_header_run [of env "snd (ask (time_time env) st)"]
  obtain s1 where header: "print_header env (snd (ask (time_time env) st)) = (Inr (), s1)"
    by blast
  obtain r1 w where req: "urlopen env ?url 5 (world s1) = (r1, w)"
    by (cases "urlopen env ?url 5 (world s1)")
  from req header assms show ?thesis
    by (cases r1)
       (simp_all add: prelude_def preflight_def ask_apply Let_def try_except_def do_seq_def
          do_bind_def ret_def call_def print_line_apply print_encoded_apply)
qed

text \<open>A failed preflight request leaves its warning on standard output.\<close>

lemma prelude_warns:
  assumes "\<forall>w. fst (urlopen env (BACKEND_URL env @ ''/api/health'') 5 w) = Inl exc"
      and "prelude env st = (r, s)"
  shows "''  WARNING: Backend health check failed ('' @ message exc @ '')'' \<in> set (stdout s)"
proof -
  let ?url = "BACKEND_URL env @ ''/api/health''"
  from print_header_run [of env "snd (ask (time_time env) st)"]
  obtain s1 where header: "print_header env (snd (ask (time_time env) st)) = (Inr (), s1)"
    by blast
  from assms(1) have "fst (urlopen env ?url 5 (world s1)) = Inl exc" by (rule spec)
  then have "call (UrlOpen ?url 5) (urlopen env ?url 5) s1
      = (Inl exc, s1\<lparr>world := snd (urlopen env ?url 5 (world s1)),
                      trace := trace s1 @ [UrlOpen ?url 5]\<rparr>)"
    by (rule call_raised)
  with header assms(2) show ?thesis
    by (cases "stdout_error env continuing_line")
       (auto simp: prelude_def preflight_def ask_apply Let_def try_except_def do_seq_def
          do_bind_def ret_def print_line_apply print_encoded_apply)
qed

text \<open>Opening the page in an environment where the session operations succeed.\<close>

lemma open_page_ok:
  assumes "session_ok env"
  shows "\<exists>s'. open_page env s = (Inr (), s') \<and> results s' = results s"
proof -
  from assms have ok:
    "\<And>w. fst (chromium_launch env w) = Inr ()"
    "\<And>w. fst (browser_new_context env w) = Inr ()"
    "\<And>w. fst (context_set_default_timeout env TIMEOUT_MS w) = Inr ()"
    "\<And>w. fst (context_new_page env w) = Inr ()"
    "\<And>w. fst (page_on_console env w) = Inr ()"
    by (simp_all add: session_ok_def)
  show ?thesis
    by (simp add: open_page_def do_seq_def do_bind_def call_ok ok)
qed

lemma startup_ok:
  assumes "session_ok env" and "stdout_error env continuing_line = None"
  shows "\<exists>start. startup env (initial w) = (Inr start, flows_start env w)"
proof -
  from prelude_returns [OF assms(2), of "initial w"]
  obtain start s where p: "prelude env (initial w) = (Inr start, s)"
    by blast
  from assms have "fst (sync_playwright_enter env (world s)) = Inr ()"
    by (simp add: session_ok_def)
  then obtain s1 where entered: "call PlaywrightEnter (sync_playwright_enter env) s = (Inr (), s1)"
    by (simp add: call_ok)
  from open_page_ok [OF assms(1), of s1]
  obtain s2 where opened: "open_page env s1 = (Inr (), s2)"
    by blast
  from p entered opened have run: "startup env (initial w) = (Inr start, s2)"
    by (simp add: startup_def do_seq_def do_bind_def ret_def)
  then have "flows_start env w = s2" by (simp add: flows_start_def)
  with run show ?thesis by simp
qed

text \<open>
  With the session opened, the run is the guarded flows, the exit of the context manager, and
  the wrap-up.
\<close>

lemma run_after_startup:
  assumes "fst (startup env (initial w)) = Inr start"
  shows "run_verification env (initial w)
           = do_seq
               (try_finally (guarded_flows env)
                  (call PlaywrightExit (sync_playwright_exit env)))
               (wrap_up env start) (flows_start env w)"
proof -
  let ?enter = "call PlaywrightEnter (sync_playwright_enter env)"
  obtain r0 s0 where p: "prelude env (initial w) = (r0, s0)"
    by (cases "prelude env (initial w)")
  obtain r1 s1 where entered: "?enter s0 = (r1, s1)" by (cases "?enter s0")
  obtain r2 s2 where opened: "open_page env s1 = (r2, s2)" by (cases "open_page env s1")
  from assms p obtain start0 where r0: "r0 = Inr start0"
    by (cases r0) (simp_all add: startup_def do_bind_def)
  from assms p r0 entered obtain u where r1: "r1 = Inr u"
    by (cases r1) (simp_all add: startup_def do_seq_def do_bind_def)
  from assms p r0 entered r1 opened obtain u' where r2: "r2 = Inr u'"
    by (cases r2) (simp_all add: startup_def do_seq_def do_bind_def)
  from assms p r0 entered r1 opened r2 have same: "start0 = start"
    by (simp add: startup_def do_seq_def do_bind_def ret_def)
  from p r0 entered r1 opened r2 have "flows_start env w = s2"
    by (simp add: flows_start_def startup_def do_seq_def do_bind_def ret_def)
  moreover from p r0 entered r1 opened r2 same
  have "run_verification env (initial w)
      = do_seq
          (try_finally (guarded_flows env) (call PlaywrightExit (sync_playwright_exit env)))
          (wrap_up env start) s2"
    by (simp add: run_verification_parts browser_session_def try_finally_def do_seq_def
          do_bind_def)
  ultimately show ?thesis by simp
qed

subsection \<open>The wrap-up\<close>

lemma write_summary_ok:
  assumes "summary_ok env"
  shows "\<exists>st'. write_summary env elapsed errors p f st = (Inr (), st')"
proof -
  from assms have ok: "\<And>path w. fst (file_open_w env path w) = Inr ()"
      "\<And>path doc w. fst (json_dump env path doc w) = Inr ()"
    by (simp_all add: summary_ok_def)
  show ?thesis
    by (simp add: write_summary_def Let_def do_seq_def do_bind_def call_ok ok ask_apply
          print_line_apply)
qed

lemma report_returned:
  assumes "report env elapsed errors st = (Inr code, st')"
  shows "results st' = results st
       \<and> code = (if count_failed (DAList.impl_of (results st)) = 0 then 0 else 1)
       \<and> (\<exists>doc. JsonDump (SCREENSHOT_DIR env @ ''/summary.json'') doc \<in> set (trace st')
              \<and> j_total doc = length (DAList.impl_of (results st))
              \<and> j_passed doc = count_passed (DAList.impl_of (results st))
              \<and> j_failed doc = count_failed (DAList.impl_of (results st))
              \<and> j_results doc = DAList.impl_of (results st))"
proof -
  let ?items = "DAList.impl_of (results st)"
  let ?s1 = "st\<lparr>stdout := stdout st @ summary_lines env elapsed errors ?items\<rparr>"
  obtain r2 s2 where written:
    "write_summary env elapsed errors (count_passed ?items) (count_failed ?items) ?s1 = (r2, s2)"
    by (cases "write_summary env elapsed errors (count_passed ?items) (count_failed ?items) ?s1")
  from assms written have fin: "r2 = Inr ()" "st' = s2"
      "code = (if count_failed ?items = 0 then 0 else 1)"
    by (auto simp: report_def print_summary_run do_bind_def do_seq_def ret_def
          split: sum.splits)
  from write_summary_run [OF written] fin show ?thesis
    by (auto simp: count_passed_failed)
qed

lemma report_ok:
  assumes "summary_ok env"
  shows "\<exists>st'. report env elapsed errors st
           = (Inr (if count_failed (DAList.impl_of (results st)) = 0 then 0 else 1), st')"
proof -
  let ?items = "DAList.impl_of (results st)"
  let ?s1 = "st\<lparr>stdout := stdout st @ summary_lines env elapsed errors ?items\<rparr>"
  from write_summary_ok [OF assms]
  obtain s2 where
    "write_summary env elapsed errors (count_passed ?items) (count_failed ?items) ?s1
       = (Inr (), s2)"
    by blast
  then show ?thesis
    by (simp add: report_def print_summary_run do_bind_def do_seq_def ret_def)
qed

lemma wrap_up_report:
  "\<exists>elapsed errors s'. wrap_up env start s = report env elapsed errors s'
     \<and> results s' = results s \<and> trace s' = trace s"
  by (auto simp: wrap_up_def console_errors_def ask_apply do_bind_def intro!: exI)

lemma wrap_up_returned:
  assumes "wrap_up env start s = (Inr code, final)"
  shows "results final = results s
       \<and> code = (if count_failed (DAList.impl_of (results s)) = 0 then 0 else 1)
       \<and> (\<exists>doc. JsonDump (SCREENSHOT_DIR env @ ''/summary.json'') doc \<in> set (trace final)
              \<and> j_total doc = length (DAList.impl_of (results s))
              \<and> j_passed doc = count_passed (DAList.impl_of (results s))
              \<and> j_failed doc = count_failed (DAList.impl_of (results s))
              \<and> j_results doc = DAList.impl_of (results s))"
proof -
  from wrap_up_report [of env start s]
  obtain elapsed errors s' where w: "wrap_up env start s = report env elapsed errors s'"
      "results s' = results s"
    by blast
  with assms have "report env elapsed errors s' = (Inr code, final)" by simp
  from report_returned [OF this] w(2) show ?thesis by simp
qed

lemma wrap_up_ok:
  assumes "summary_ok env"
  shows "\<exists>final. wrap_up env start s
           = (Inr (if count_failed (DAList.impl_of (results s)) = 0 then 0 else 1), final)"
proof -
  from wrap_up_report [of env start s]
  obtain elapsed errors s' where w: "wrap_up env start s = report env elapsed errors s'"
      "results s' = results s"
    by blast
  from report_ok [OF assms, of elapsed errors s'] w show ?thesis by simp
qed

subsection \<open>The eight flows in sequence\<close>

lemma recorded_update:
  assumes "results st' = DAList.update name res (results st)" and "name \<notin> set (recorded st)"
  shows "recorded st' = recorded st @ [name]"
  using assms by (simp add: recorded_def DAList.update.rep_eq update_keys)

lemma block_records:
  assumes "list_all2 (\<lambda>name m. records name (\<lambda>res. True) m) names ms"
      and "distinct names"
      and "set names \<inter> set (recorded st) = {}"
      and "block ms st = (r, st')"
  shows "(r = Inr () \<longrightarrow> recorded st' = recorded st @ names)
       \<and> (\<forall>exc. r = Inl exc
            \<longrightarrow> (\<exists>k < length names. recorded st' = recorded st @ take k names))"
  using assms
proof (induction names ms arbitrary: st rule: list_all2_induct)
  case Nil
  from Nil.prems(3) have "r = Inr ()" "st' = st" by (simp_all add: ret_def)
  then show ?case by simp
next
  case (Cons name names m ms)
  obtain r1 s1 where m: "m st = (r1, s1)" by (cases "m st")
  show ?case
  proof (cases r1)
    case (Inl exc)
    with m have "m st = (Inl exc, s1)" by simp
    with Cons.hyps(1) have "results s1 = results st" by (rule records_raised)
    then have same: "recorded s1 = recorded st" by (simp add: recorded_def)
    from Inl m Cons.prems(3) have stop: "r = Inl exc" "st' = s1"
      by (simp_all add: block.simps(2) do_seq_def do_bind_def)
    from same stop have "0 < length (name # names)
        \<and> recorded st' = recorded st @ take 0 (name # names)"
      by simp
    then have "\<exists>k < length (name # names). recorded st' = recorded st @ take k (name # names)"
      by blast
    with stop show ?thesis by simp
  next
    case (Inr u)
    with m have "m st = (Inr u, s1)" by simp
    with Cons.hyps(1) have "\<exists>res. True \<and> results s1 = DAList.update name res (results st)"
      by (rule records_returned)
    then obtain res where "results s1 = DAList.update name res (results st)" by blast
    moreover from Cons.prems(2) have "name \<notin> set (recorded st)" by simp
    ultimately have s1: "recorded s1 = recorded st @ [name]" by (rule recorded_update)
    from Inr m Cons.prems(3) have rest: "block ms s1 = (r, st')"
      by (simp add: block.simps(2) do_seq_def do_bind_def)
    from Cons.prems(1) have d: "distinct names" "name \<notin> set names" by simp_all
    from Cons.prems(2) have "set names \<inter> set (recorded st) = {}" by simp
    with d(2) s1 have "set names \<inter> set (recorded s1) = {}" by auto
    note d(1) this
    from Cons.IH [OF this rest] s1
    have ok: "r = Inr () \<longrightarrow> recorded st' = recorded st @ name # names"
      and bad: "\<forall>exc. r = Inl exc
         \<longrightarrow> (\<exists>k < length names. recorded st' = recorded st @ name # take k names)"
      by simp_all
    have "\<forall>exc. r = Inl exc
         \<longrightarrow> (\<exists>k < length (name # names). recorded st' = recorded st @ take k (name # names))"
    proof (intro allI impI)
      fix exc
      assume "r = Inl exc"
      with bad obtain k where "k < length names"
          "recorded st' = recorded st @ name # take k names"
        by blast
      then have "Suc k < length (name # names)
          \<and> recorded st' = recorded st @ take (Suc k) (name # names)"
        by simp
      then show "\<exists>k < length (name # names).
          recorded st' = recorded st @ take k (name # names)"
        by blast
    qed
    with ok show ?thesis by simp
  qed
qed

lemma flows_record:
  "records ''demo_login'' (\<lambda>res. True) (flow_demo_login env)"
  "records ''dashboard_loads'' (\<lambda>res. True) (flow_dashboard_loads env)"
  "records ''customer_detail'' (\<lambda>res. True) (flow_customer_detail env)"
  "records ''operations_hub'' (\<lambda>res. True) (flow_operations_hub env)"
  "records ''admin_panel'' (\<lambda>res. True) (flow_admin_panel env)"
  "records ''agent_center'' (\<lambda>res. True) (flow_agent_center env)"
  "records ''knowledge_base'' (\<lambda>res. True) (flow_knowledge_base env)"
  "records ''chat_send'' (\<lambda>res. True) (flow_chat_send env)"
  unfolding flow_demo_login_def flow_dashboard_loads_def flow_customer_detail_def
    flow_operations_hub_def flow_admin_panel_def flow_agent_center_def
    flow_knowledge_base_def flow_chat_send_def
  by (rule records_flow, rule records_mono, rule records_demo_login_body, simp, simp,
      rule records_flow, rule records_dashboard_loads_body, simp,
      rule records_flow, rule records_customer_detail_body, simp,
      rule records_flow, rule records_operations_hub_body, simp,
      rule records_flow, rule records_mono, rule records_admin_panel_body, simp, simp,
      rule records_flow, rule records_agent_center_body, simp,
      rule records_flow, rule records_knowledge_base_body, simp,
      rule records_flow, rule records_mono, rule records_chat_send_body, simp, simp)

lemma run_flows_recorded:
  assumes "run_flows env st = (r, st')" and "set flow_names \<inter> set (recorded st) = {}"
  shows "(r = Inr () \<longrightarrow> recorded st' = recorded st @ flow_names)
       \<and> (\<forall>exc. r = Inl exc
            \<longrightarrow> (\<exists>k < length flow_names. recorded st' = recorded st @ take k flow_names))"
proof (rule block_records [OF _ _ assms(2)])
  show "distinct flow_names" by (simp add: flow_names_def)
next
  show "list_all2 (\<lambda>name m. records name (\<lambda>res. True) m) flow_names
          [flow_demo_login env, flow_dashboard_loads env, flow_customer_detail env,
           flow_operations_hub env, flow_admin_panel env, flow_agent_center env,
           flow_knowledge_base env, flow_chat_send env]"
    by (simp add: flow_names_def flows_record)
next
  from assms(1)
  show "block [flow_demo_login env, flow_dashboard_loads env, flow_customer_detail env,
           flow_operations_hub env, flow_admin_panel env, flow_agent_center env,
           flow_knowledge_base env, flow_chat_send env] st = (r, st')"
    by (simp only: run_flows_def)
qed

subsection \<open>Opening and closing the session\<close>

lemma keeps_open_page: "keeps (open_page env)"
  unfolding open_page_def by auto

lemma emits_open_page: "emits (opening_call env) (open_page env)"
  unfolding open_page_def by (auto simp: opening_call_def)

text \<open>Nothing is recorded before the flows.\<close>

lemma keeps_prelude: "keeps (prelude env)"
  by (rule keepsI) (simp add: prelude_effect)

lemma keeps_startup: "keeps (startup env)"
  unfolding startup_def by (intro keeps_do_bind keeps_do_seq keeps_prelude keeps_call
    keeps_open_page keeps_ret)

lemma flows_start_empty: "results (flows_start env w) = DAList.empty"
proof -
  obtain r s where run: "startup env (initial w) = (r, s)" by (cases "startup env (initial w)")
  from keepsD [OF keeps_startup run] run show ?thesis
    by (simp add: flows_start_def initial_def)
qed

lemma finish_session:
  assumes "session_ok env"
      and "try_except (run_flows env) (fatal_handler env) s = (Inr (), s1)"
  shows "\<exists>s2. try_finally (guarded_flows env)
                 (call PlaywrightExit (sync_playwright_exit env)) s = (Inr (), s2)
           \<and> results s2 = results s1"
proof -
  from assms(1) have ok: "\<And>w. fst (browser_close env w) = Inr ()"
      "\<And>w. fst (sync_playwright_exit env w) = Inr ()"
    by (simp_all add: session_ok_def)
  from assms(2) show ?thesis
    by (simp add: guarded_flows_def try_finally_def call_ok ok)
qed


text \<open>
  When the session operations and the writing of the summary succeed and the runner's
  \<^verbatim>\<open>try\<close> statement ends without an exception, the run reaches its end: the exit code and
  the document come from the results recorded by then.
\<close>

lemma run_completes:
  assumes "session_ok env" and "summary_ok env"
      and "fst (startup env (initial w)) = Inr start"
      and "try_except (run_flows env) (fatal_handler env) (flows_start env w) = (Inr (), s1)"
  shows "\<exists>final doc.
           run_verification env (initial w)
             = (Inr (if count_failed (DAList.impl_of (results s1)) = 0 then 0 else 1), final)
         \<and> results final = results s1
         \<and> JsonDump (SCREENSHOT_DIR env @ ''/summary.json'') doc \<in> set (trace final)
         \<and> j_total doc = length (DAList.impl_of (results s1))
         \<and> j_passed doc = count_passed (DAList.impl_of (results s1))
         \<and> j_failed doc = count_failed (DAList.impl_of (results s1))
         \<and> j_results doc = DAList.impl_of (results s1)"
proof -
  let ?code = "if count_failed (DAList.impl_of (results s1)) = 0 then 0 else 1 :: nat"
  note run = run_after_startup [OF assms(3)]
  from finish_session [OF assms(1,4)]
  obtain s2 where closed: "try_finally (guarded_flows env)
        (call PlaywrightExit (sync_playwright_exit env)) (flows_start env w) = (Inr (), s2)"
      and s2: "results s2 = results s1"
    by blast
  from wrap_up_ok [OF assms(2), of start s2] s2
  obtain final where w: "wrap_up env start s2 = (Inr ?code, final)"
    by auto
  from run closed w have "run_verification env (initial w) = (Inr ?code, final)"
    by (simp add: do_seq_def do_bind_def)
  with wrap_up_returned [OF w] s2 show ?thesis by auto
qed

section \<open>The claims about a whole run\<close>

text \<open>
  C3, as the code has it. The exit code is 0 or 1. It is 0 exactly when
  \<^verbatim>\<open>run_verification\<close> returns, which it does only after writing the summary, and the
  failed count is 0, that is, every recorded flow passed. When \<^verbatim>\<open>run_verification\<close>
  returns, the failed count of the written document is the number of failed entries of the
  final dictionary. A run in which an exception leaves \<^verbatim>\<open>run_verification\<close> exits with
  1 whatever was recorded.
\<close>

theorem exit_code_of_finished_run:
  assumes "main env w = (code, final)"
  shows "(code = 0 \<or> code = 1)
       \<and> (code = 0 \<longleftrightarrow>
            (\<exists>c. fst (run_verification env (initial w)) = Inr c)
            \<and> count_failed (DAList.impl_of (results final)) = 0)
       \<and> ((\<exists>c. fst (run_verification env (initial w)) = Inr c)
            \<longrightarrow> (\<exists>doc. JsonDump (SCREENSHOT_DIR env @ ''/summary.json'') doc
                          \<in> set (trace final)
                   \<and> j_failed doc = count_failed (DAList.impl_of (results final))
                   \<and> j_results doc = DAList.impl_of (results final)))"
proof -
  obtain r st where run: "run_verification env (initial w) = (r, st)"
    by (cases "run_verification env (initial w)")
  show ?thesis
  proof (cases r)
    case (Inl exc)
    with run assms have "code = 1" by (simp add: main_def)
    with Inl run show ?thesis by simp
  next
    case (Inr c)
    with run assms have fin: "code = c" "final = st" by (simp_all add: main_def)
    from run Inr have "do_bind (prelude env)
        (\<lambda>start. do_seq (browser_session env) (wrap_up env start)) (initial w) = (Inr c, st)"
      by (simp add: run_verification_parts)
    from do_bind_returned [OF this]
    obtain start s0 where "do_seq (browser_session env) (wrap_up env start) s0 = (Inr c, st)"
      by blast
    then have "do_bind (browser_session env) (\<lambda>_. wrap_up env start) s0 = (Inr c, st)"
      by (simp add: do_seq_def)
    from do_bind_returned [OF this]
    obtain s1 where w: "wrap_up env start s1 = (Inr c, st)" by blast
    from wrap_up_returned [OF w]
    have same: "results st = results s1"
      and c: "c = (if count_failed (DAList.impl_of (results s1)) = 0 then 0 else 1)"
      and doc: "\<exists>doc. JsonDump (SCREENSHOT_DIR env @ ''/summary.json'') doc \<in> set (trace st)
              \<and> j_failed doc = count_failed (DAList.impl_of (results s1))
              \<and> j_results doc = DAList.impl_of (results s1)"
      by auto
    from run Inr have returned: "\<exists>c. fst (run_verification env (initial w)) = Inr c" by simp
    from c same fin have "code = 0 \<or> code = 1"
      and "code = 0 \<longleftrightarrow> count_failed (DAList.impl_of (results final)) = 0"
      by auto
    with returned doc same fin show ?thesis by simp
  qed
qed

text \<open>
  C4, as the code has it. When the browser session cannot be opened, because entering
  Playwright, launching the browser, opening the context or the page, or registering the
  console handler raises, the exception is not caught: the process exits with 1, nothing
  has been recorded, and the only library calls of the run are the preflight request and the
  calls that open and leave the session. No flow runs, no screenshot is attempted and no
  summary is written.
\<close>

theorem launch_failure_aborts:
  assumes "startup env (initial w) = (Inl exc, s)"
  shows "fst (main env w) = 1
       \<and> results (snd (main env w)) = DAList.empty
       \<and> list_all (opening_call env) (trace (snd (main env w)))"
proof -
  let ?enter = "call PlaywrightEnter (sync_playwright_enter env)"
  let ?exit = "call PlaywrightExit (sync_playwright_exit env)"
  obtain r0 s0 where p0: "prelude env (initial w) = (r0, s0)"
    by (cases "prelude env (initial w)")
  from prelude_effect [OF p0]
  have s0: "results s0 = DAList.empty"
      "trace s0 = [UrlOpen (BACKEND_URL env @ ''/api/health'') 5]"
    by (simp_all add: initial_def)
  obtain r1 s1 where entered: "?enter s0 = (r1, s1)" by (cases "?enter s0")
  then have s1: "results s1 = results s0" "trace s1 = trace s0 @ [PlaywrightEnter]"
    by (auto simp: call_def split: prod.splits)
  show ?thesis
  proof (cases r0)
    case (Inl e)
    with p0 have "run_verification env (initial w) = (Inl e, s0)"
      by (simp add: run_verification_parts do_bind_def)
    then have "main env w = (1, s0)" by (simp add: main_def)
    with s0 show ?thesis by (simp add: opening_call_def)
  next
    case (Inr start)
    with p0 have p: "prelude env (initial w) = (Inr start, s0)" by simp
    show ?thesis
    proof (cases r1)
      case (Inl e)
      with p entered have "run_verification env (initial w) = (Inl e, s1)"
        by (simp add: run_verification_parts browser_session_def do_seq_def do_bind_def)
      then have "main env w = (1, s1)" by (simp add: main_def)
      with s0 s1 show ?thesis by (simp add: opening_call_def)
    next
      case (Inr u)
      obtain r2 s2 where opened: "open_page env s1 = (r2, s2)" by (cases "open_page env s1")
      from keepsD [OF keeps_open_page opened] have s2r: "results s2 = results s1" .
      from emitsD [OF emits_open_page opened]
      obtain evs where s2t: "trace s2 = trace s1 @ evs" "list_all (opening_call env) evs"
        by blast
      from assms p entered Inr opened obtain e where raised: "r2 = Inl e"
        by (cases r2) (simp_all add: startup_def do_seq_def do_bind_def ret_def)
      obtain r3 s3 where left: "?exit s2 = (r3, s3)" by (cases "?exit s2")
      then have s3: "results s3 = results s2" "trace s3 = trace s2 @ [PlaywrightExit]"
        by (auto simp: call_def split: prod.splits)
      from p entered Inr opened raised left
      have "\<exists>e'. run_verification env (initial w) = (Inl e', s3)"
        by (cases r3)
           (simp_all add: run_verification_parts browser_session_def try_finally_def do_seq_def
              do_bind_def)
      then have "main env w = (1, s3)" by (auto simp: main_def)
      with s0 s1 s2r s2t s3 show ?thesis by (simp add: opening_call_def)
    qed
  qed
qed

section \<open>Runs in the example environments\<close>

lemmas flow_defs =
  flow_demo_login_def flow_demo_login_body_def
  flow_dashboard_loads_def flow_dashboard_loads_body_def
  flow_customer_detail_def flow_customer_detail_body_def
  flow_operations_hub_def flow_operations_hub_body_def visit_sub_tab_def sub_tabs_def
  flow_admin_panel_def flow_admin_panel_body_def
  flow_agent_center_def flow_agent_center_body_def
  flow_knowledge_base_def flow_knowledge_base_body_def
  flow_chat_send_def flow_chat_send_body_def test_message_def
  any_in_def lower_def lower_char_def TIMEOUT_MS_def

lemmas runner_defs =
  main_def run_verification_def print_header_def preflight_def browser_session_def
  open_page_def guarded_flows_def fatal_handler_def run_flows_def console_errors_def
  report_def print_summary_def write_summary_def tally_line_def

lemma no_browser_run:
  "fst (main no_browser_env ()) = 1
   \<and> DAList.impl_of (results (snd (main no_browser_env ()))) = []
   \<and> trace (snd (main no_browser_env ()))
       = [UrlOpen ''http://localhost:3001/api/health'' 5, PlaywrightEnter, Launch,
          PlaywrightExit]"
  by (simp add: runner_defs run_defs no_browser_env_def ok_env_def TIMEOUT_MS_def str_nat.simps
        dict_defs)

lemma no_shots_run:
  "fst (main no_shots_env ()) = 1
   \<and> DAList.impl_of (results (snd (main no_shots_env ()))) = []
   \<and> trace (snd (main no_shots_env ()))
       = [UrlOpen ''http://localhost:3001/api/health'' 5, PlaywrightEnter, Launch, NewContext,
          SetDefaultTimeout 15000, NewPage, OnConsole,
          Goto ''http://localhost:3002'' ''networkidle'' 15000,
          Screenshot ''/repo/test-screenshots/prd7-verification/01_demo_login_error.png'',
          Screenshot ''/repo/test-screenshots/prd7-verification/fatal_error.png'',
          BrowserClose, PlaywrightExit]"
  by (simp add: runner_defs flow_demo_login_def flow_demo_login_body_def run_defs
        no_shots_env_def ok_env_def TIMEOUT_MS_def str_nat.simps dict_defs)

text \<open>Each flow in the application where everything succeeds, from any state.\<close>

lemma ok_content_lower: "lower ''Customer Dashboard (admin)'' = ''customer dashboard (admin)''"
  by (simp add: lower_def lower_char_def)

lemma ok_demo_login:
  "fst (flow_demo_login ok_env st) = Inr ()
   \<and> results (snd (flow_demo_login ok_env st))
       = DAList.update ''demo_login''
           \<lparr>passed = True,
            detail = ''Bypassed login (Supabase not configured or already in demo)''\<rparr>
           (results st)"
  by (simp add: flow_demo_login_def flow_demo_login_body_def any_in_def ok_content_lower
        TIMEOUT_MS_def run_defs ok_env_def)

lemma ok_dashboard_loads:
  "fst (flow_dashboard_loads ok_env st) = Inr ()
   \<and> results (snd (flow_dashboard_loads ok_env st))
       = DAList.update ''dashboard_loads''
           \<lparr>passed = True, detail = ''Customer data indicators found on dashboard''\<rparr>
           (results st)"
  by (simp add: flow_dashboard_loads_def flow_dashboard_loads_body_def any_in_def ok_content_lower
        TIMEOUT_MS_def run_defs ok_env_def)

lemma ok_customer_detail:
  "fst (flow_customer_detail ok_env st) = Inr ()
   \<and> results (snd (flow_customer_detail ok_env st))
       = DAList.update ''customer_detail''
           \<lparr>passed = True, detail = ''Customer detail view loaded''\<rparr> (results st)"
  by (simp add: flow_customer_detail_def flow_customer_detail_body_def any_in_def ok_content_lower
        TIMEOUT_MS_def run_defs ok_env_def)

lemma ok_operations_hub:
  "fst (flow_operations_hub ok_env st) = Inr ()
   \<and> results (snd (flow_operations_hub ok_env st))
       = DAList.update ''operations_hub''
           \<lparr>passed = True, detail = ''All 5 sub-tabs accessible''\<rparr> (results st)"
  by (simp add: flow_operations_hub_def flow_operations_hub_body_def visit_sub_tab_def
        sub_tabs_def TIMEOUT_MS_def run_defs ok_env_def)

lemma ok_admin_panel:
  "fst (flow_admin_panel ok_env st) = Inr ()
   \<and> results (snd (flow_admin_panel ok_env st))
       = DAList.update ''admin_panel''
           \<lparr>passed = True, detail = ''Admin panel loaded with settings content''\<rparr>
           (results st)"
  by (simp add: flow_admin_panel_def flow_admin_panel_body_def any_in_def ok_content_lower
        TIMEOUT_MS_def run_defs ok_env_def)

lemma ok_agent_center:
  "fst (flow_agent_center ok_env st) = Inr ()
   \<and> results (snd (flow_agent_center ok_env st))
       = DAList.update ''agent_center''
           \<lparr>passed = True,
            detail = ''Agent Center navigated (chat content may be loading)''\<rparr>
           (results st)"
  by (simp add: flow_agent_center_def flow_agent_center_body_def any_in_def ok_content_lower
        TIMEOUT_MS_def run_defs ok_env_def)

lemma ok_knowledge_base:
  "fst (flow_knowledge_base ok_env st) = Inr ()
   \<and> results (snd (flow_knowledge_base ok_env st))
       = DAList.update ''knowledge_base''
           \<lparr>passed = True, detail = ''Knowledge Base navigated (may be empty)''\<rparr>
           (results st)"
  by (simp add: flow_knowledge_base_def flow_knowledge_base_body_def any_in_def ok_content_lower
        TIMEOUT_MS_def run_defs ok_env_def)

lemma ok_chat_send:
  "fst (flow_chat_send ok_env st) = Inr ()
   \<and> results (snd (flow_chat_send ok_env st))
       = DAList.update ''chat_send''
           \<lparr>passed = True, detail = ''Message typed and send attempted''\<rparr> (results st)"
  by (simp add: flow_chat_send_def flow_chat_send_body_def test_message_def TIMEOUT_MS_def
        run_defs ok_env_def)

lemma ok_run_flows:
  assumes "results st = DAList.empty"
  shows "fst (run_flows ok_env st) = Inr ()
       \<and> recorded (snd (run_flows ok_env st)) = flow_names
       \<and> count_failed (DAList.impl_of (results (snd (run_flows ok_env st)))) = 0"
  by (simp add: run_flows_def do_seq_def do_bind_def case_prod_beta ok_demo_login
        ok_dashboard_loads ok_customer_detail ok_operations_hub ok_admin_panel ok_agent_center
        ok_knowledge_base ok_chat_send assms recorded_def flow_names_def count_failed_def
        dict_defs)

lemma ok_env_ok: "session_ok ok_env" "summary_ok ok_env" "shots_ok ok_env" "fatal_shot_ok ok_env"
  by (simp_all add: session_ok_def summary_ok_def shots_ok_def fatal_shot_ok_def ok_env_def)

lemma ok_startup: "fst (startup ok_env (initial ())) = Inr ()"
proof -
  have "stdout_error ok_env continuing_line = None" by (simp add: ok_env_def)
  from startup_ok [OF ok_env_ok(1) this, of "()"] show ?thesis by auto
qed

lemma ok_run:
  "fst (run_verification ok_env (initial ())) = Inr 0
   \<and> recorded (snd (run_verification ok_env (initial ()))) = flow_names
   \<and> count_failed (DAList.impl_of (results (snd (run_verification ok_env (initial ()))))) = 0"
proof -
  let ?s = "flows_start ok_env () :: (unit, unit) state"
  have empty: "results ?s = DAList.empty" by (rule flows_start_empty)
  note flows = ok_run_flows [OF empty]
  obtain r s1 where run: "run_flows ok_env ?s = (r, s1)" by (cases "run_flows ok_env ?s")
  with flows have r: "r = Inr ()" and s1: "recorded s1 = flow_names"
      "count_failed (DAList.impl_of (results s1)) = 0"
    by simp_all
  from run r have "try_except (run_flows ok_env) (fatal_handler ok_env) ?s = (Inr (), s1)"
    by (simp add: try_except_def)
  from run_completes [OF ok_env_ok(1,2) ok_startup this] s1 show ?thesis
    by (auto simp: recorded_def)
qed

text \<open>
  A run in which the browser launches, flow 1 cannot reach the frontend, and neither the
  screenshot of its handler nor the runner's own screenshot can be written: the exception
  leaves \<^verbatim>\<open>run_verification\<close>. The process exits with 1 although no recorded flow failed.
\<close>

theorem exit_code_counterexample:
  "fst (main no_shots_env ()) = 1
   \<and> DAList.impl_of (results (snd (main no_shots_env ()))) = []
   \<and> count_failed (DAList.impl_of (results (snd (main no_shots_env ())))) = 0
   \<and> Launch \<in> set (trace (snd (main no_shots_env ())))"
  using no_shots_run by (simp add: count_failed_def)

theorem exit_code_of_finished_run_witness:
  "fst (main ok_env ()) = 0
   \<and> fst (run_verification ok_env (initial ())) = Inr 0
   \<and> count_failed (DAList.impl_of (results (snd (main ok_env ())))) = 0"
proof -
  obtain r final where run: "run_verification ok_env (initial ()) = (r, final)"
    by (cases "run_verification ok_env (initial ()) :: (exn + nat) \<times> (unit, unit) state")
  with ok_run have r: "r = Inr 0" by simp
  with run have m: "main ok_env () = (0, final)" by (simp add: main_def)
  from exit_code_of_finished_run [OF m] run r m show ?thesis by simp
qed

text \<open>
  A run in which the browser cannot be launched: the only library calls are the preflight
  request, entering Playwright, the failed launch and leaving Playwright. No screenshot is
  attempted.
\<close>

theorem launch_failure_counterexample:
  "fst (main no_browser_env ()) = 1
   \<and> trace (snd (main no_browser_env ()))
       = [UrlOpen ''http://localhost:3001/api/health'' 5, PlaywrightEnter, Launch,
          PlaywrightExit]"
  by (simp add: runner_defs run_defs no_browser_env_def ok_env_def TIMEOUT_MS_def str_nat.simps)

theorem launch_failure_aborts_witness:
  "fst (startup no_browser_env (initial ())) = Inl (Exception ''Executable does not exist'')
   \<and> fst (main no_browser_env ()) = 1
   \<and> results (snd (main no_browser_env ())) = DAList.empty
   \<and> list_all (opening_call no_browser_env) (trace (snd (main no_browser_env ())))"
proof -
  have raised: "fst (startup no_browser_env (initial ()))
      = Inl (Exception ''Executable does not exist'')"
    by (simp add: startup_def prelude_def print_header_def preflight_def open_page_def run_defs
          no_browser_env_def ok_env_def TIMEOUT_MS_def str_nat.simps)
  obtain r s where st: "startup no_browser_env (initial ()) = (r, s)"
    by (cases "startup no_browser_env (initial ()) :: (exn + unit) \<times> (unit, unit) state")
  with raised have "startup no_browser_env (initial ())
      = (Inl (Exception ''Executable does not exist''), s)"
    by simp
  from launch_failure_aborts [OF this] raised show ?thesis by simp
qed

section \<open>Flows and their handlers\<close>







section \<open>Runs that reach the summary\<close>

subsection \<open>Computations that never raise\<close>

lemma returnsI: "(\<And>st. \<exists>x s'. m st = (Inr x, s')) \<Longrightarrow> returns m"
  unfolding returns_def
proof
  fix st
  assume "\<And>st. \<exists>x s'. m st = (Inr x, s')"
  then obtain x s' where "m st = (Inr x, s')" by blast
  then show "\<not> isl (fst (m st))" by simp
qed

lemma returnsD: "returns m \<Longrightarrow> \<exists>x s'. m st = (Inr x, s')"
proof -
  assume "returns m"
  then have no: "\<not> isl (fst (m st))" unfolding returns_def by (rule spec)
  obtain r s' where run: "m st = (r, s')" by (cases "m st")
  show ?thesis
  proof (cases r)
    case (Inl e)
    with run no show ?thesis by simp
  next
    case (Inr x)
    with run show ?thesis by blast
  qed
qed

lemma returns_simple:
  "returns (ret x)" "returns (print_line s)" "returns (record_result name p d)"
  by (rule returnsI, simp add: ret_def print_line_apply record_result_apply)+

lemma returns_do_bind:
  assumes "returns m" and "\<And>x. returns (f x)"
  shows "returns (do_bind m f)"
proof (rule returnsI)
  fix st
  from returnsD [OF assms(1)] obtain x s1 where m: "m st = (Inr x, s1)" by blast
  from returnsD [OF assms(2)] obtain y s2 where "f x s1 = (Inr y, s2)" by blast
  with m have "do_bind m f st = (Inr y, s2)" by (simp add: do_bind_def)
  then show "\<exists>y s'. do_bind m f st = (Inr y, s')" by blast
qed

lemma returns_do_seq: "returns m \<Longrightarrow> returns n \<Longrightarrow> returns (do_seq m n)"
  unfolding do_seq_def by (rule returns_do_bind)

lemma returns_try_except:
  assumes "\<And>exc. returns (h exc)"
  shows "returns (try_except m h)"
proof (rule returnsI)
  fix st
  obtain r s1 where m: "m st = (r, s1)" by (cases "m st")
  show "\<exists>y s'. try_except m h st = (Inr y, s')"
  proof (cases r)
    case (Inl exc)
    from returnsD [OF assms] obtain y s2 where "h exc s1 = (Inr y, s2)" by blast
    with m Inl have "try_except m h st = (Inr y, s2)" by (simp add: try_except_def)
    then show ?thesis by blast
  next
    case (Inr x)
    with m have "try_except m h st = (Inr x, s1)" by (simp add: try_except_def)
    then show ?thesis by blast
  qed
qed

lemma returns_screenshot:
  assumes "shots_ok env"
  shows "returns (screenshot env name)"
proof (rule returnsI)
  fix st :: "('a, 'b) state"
  from assms have "\<And>path w. fst (page_screenshot env path w) = Inr ()"
    by (simp add: shots_ok_def)
  then show "\<exists>x s'. screenshot env name st = (Inr x, s')"
    by (simp add: screenshot_def Let_def do_seq_def do_bind_def ret_def call_ok)
qed

lemma returns_flow:
  assumes "shots_ok env"
  shows "returns
           (block
             [print_line a,
              print_line b,
              try_except body
                (\<lambda>exc. block
                   [stmt (screenshot env shot),
                    record_result name False (message exc)])])"
  by (simp only: block_cons2 block_single stmt_def)
     (intro returns_do_seq returns_do_bind returns_try_except returns_simple
        returns_screenshot [OF assms])

lemma flows_return:
  assumes "shots_ok env"
  shows "returns (flow_demo_login env)" "returns (flow_dashboard_loads env)"
    "returns (flow_customer_detail env)" "returns (flow_operations_hub env)"
    "returns (flow_admin_panel env)" "returns (flow_agent_center env)"
    "returns (flow_knowledge_base env)" "returns (flow_chat_send env)"
  unfolding flow_demo_login_def flow_dashboard_loads_def flow_customer_detail_def
    flow_operations_hub_def flow_admin_panel_def flow_agent_center_def
    flow_knowledge_base_def flow_chat_send_def
  by (rule returns_flow [OF assms])+

lemma run_flows_returns:
  assumes "shots_ok env"
  shows "\<exists>s'. run_flows env st = (Inr (), s')"
proof -
  have "returns (run_flows env)"
    by (simp only: run_flows_def block_cons2 block_single)
       (intro returns_do_seq flows_return [OF assms])
  from returnsD [OF this] show ?thesis by auto
qed

lemma flows_start_fresh: "recorded (flows_start env w) = []"
  by (simp add: recorded_def flows_start_empty DAList.empty.rep_eq)

text \<open>
  A failed preflight request on a standard output that can encode both lines of the warning:
  the handler prints them and the run goes on. Provided the browser session can be opened
  and closed, the screenshots can be taken and the summary can be written,
  \<^verbatim>\<open>run_verification\<close> returns: all eight flows have recorded a result, and the document
  written to \<^verbatim>\<open>summary.json\<close> holds these eight results, with \<^verbatim>\<open>total\<close> equal to 8.
\<close>

lemma health_check_failure_logged:
  assumes "\<forall>w. fst (urlopen env (BACKEND_URL env @ ''/api/health'') 5 w) = Inl exc"
      and "stdout_error env continuing_line = None"
      and "session_ok env" and "shots_ok env" and "summary_ok env"
  shows "\<exists>code final doc.
           run_verification env (initial w) = (Inr code, final)
         \<and> main env w = (code, final)
         \<and> ''  WARNING: Backend health check failed ('' @ message exc @ '')''
             \<in> set (stdout (snd (prelude env (initial w))))
         \<and> recorded final = flow_names
         \<and> JsonDump (SCREENSHOT_DIR env @ ''/summary.json'') doc \<in> set (trace final)
         \<and> map fst (j_results doc) = flow_names
         \<and> j_total doc = 8
         \<and> j_passed doc + j_failed doc = 8"
proof -
  let ?s = "flows_start env w"
  from startup_ok [OF assms(3,2), of w]
  obtain start where started: "fst (startup env (initial w)) = Inr start" by auto
  from run_flows_returns [OF assms(4), of ?s]
  obtain s1 where flows: "run_flows env ?s = (Inr (), s1)" by blast
  have "set flow_names \<inter> set (recorded ?s) = {}"
    by (simp add: flows_start_fresh)
  from run_flows_recorded [OF flows this]
  have names: "recorded s1 = flow_names"
    by (simp add: flows_start_fresh)
  from flows have "try_except (run_flows env) (fatal_handler env) ?s = (Inr (), s1)"
    by (simp add: try_except_def)
  from run_completes [OF assms(3,5) started this]
  obtain final doc where run:
      "run_verification env (initial w)
         = (Inr (if count_failed (DAList.impl_of (results s1)) = 0 then 0 else 1), final)"
    and res: "results final = results s1"
    and dumped: "JsonDump (SCREENSHOT_DIR env @ ''/summary.json'') doc \<in> set (trace final)"
    and total: "j_total doc = length (DAList.impl_of (results s1))"
    and passed: "j_passed doc = count_passed (DAList.impl_of (results s1))"
    and failed: "j_failed doc = count_failed (DAList.impl_of (results s1))"
    and items: "j_results doc = DAList.impl_of (results s1)"
    by blast
  let ?code = "if count_failed (DAList.impl_of (results s1)) = 0 then 0 else 1 :: nat"
  from names have "length (map fst (DAList.impl_of (results s1))) = length flow_names"
    by (simp add: recorded_def)
  then have eight: "length (DAList.impl_of (results s1)) = 8"
    by (simp add: flow_names_def)
  have warned: "''  WARNING: Backend health check failed ('' @ message exc @ '')''
             \<in> set (stdout (snd (prelude env (initial w))))"
  proof -
    obtain r0 s0 where p: "prelude env (initial w) = (r0, s0)"
      by (cases "prelude env (initial w)")
    from prelude_warns [OF assms(1) p] p show ?thesis by simp
  qed
  from run have m: "main env w = (?code, final)" by (simp add: main_def)
  from res names have final_names: "recorded final = flow_names" by (simp add: recorded_def)
  from items names have doc_names: "map fst (j_results doc) = flow_names"
    by (simp add: recorded_def)
  from total eight have t8: "j_total doc = 8" by simp
  from passed failed eight have pf8: "j_passed doc + j_failed doc = 8"
    by (simp add: count_passed_failed)
  from run m warned final_names dumped doc_names t8 pf8 show ?thesis by blast
qed

text \<open>So it is in \<open>backend_down_env\<close>, whose standard output encodes every text.\<close>

lemma backend_down_env_ok:
  "session_ok backend_down_env" "summary_ok backend_down_env" "shots_ok backend_down_env"
  "\<forall>w. fst (urlopen backend_down_env (BACKEND_URL backend_down_env @ ''/api/health'') 5 w)
        = Inl (Exception ''Connection refused'')"
  "stdout_error backend_down_env continuing_line = None"
  by (simp_all add: session_ok_def summary_ok_def shots_ok_def backend_down_env_def ok_env_def)

lemma backend_down_run:
  "recorded (snd (main backend_down_env ())) = flow_names
   \<and> (\<exists>doc. JsonDump ''/repo/test-screenshots/prd7-verification/summary.json'' doc
               \<in> set (trace (snd (main backend_down_env ())))
            \<and> map fst (j_results doc) = flow_names
            \<and> j_total doc = 8)"
proof -
  from health_check_failure_logged
    [OF backend_down_env_ok(4) backend_down_env_ok(5) backend_down_env_ok(1)
        backend_down_env_ok(3) backend_down_env_ok(2), of "()"]
  obtain code final doc where
      "main backend_down_env () = (code, final)"
      "recorded final = flow_names"
      "JsonDump (SCREENSHOT_DIR backend_down_env @ ''/summary.json'') doc \<in> set (trace final)"
      "map fst (j_results doc) = flow_names"
      "j_total doc = 8"
    by blast
  moreover have "SCREENSHOT_DIR backend_down_env @ ''/summary.json''
      = ''/repo/test-screenshots/prd7-verification/summary.json''"
    by (simp add: backend_down_env_def ok_env_def)
  ultimately show ?thesis by auto
qed

text \<open>
  C6. The handler of the preflight request is written to go on: it prints a warning whose
  second line says that the run continues. That line holds an em dash, the only character
  outside ASCII that the script prints (the header line has \<^verbatim>\<open>--\<close>), and the prints of the
  handler are not guarded. In \<open>ascii_stdout_env\<close>, which differs from \<open>backend_down_env\<close> in
  the encoding of standard output only, the first line of the warning is the last line
  printed, the encoding error of the second leaves \<^verbatim>\<open>run_verification\<close>, and the process
  exits with 1 before the browser is started: the preflight request is the only library
  call of the run, no flow has recorded a result and no summary is written.
\<close>

theorem health_check_failure_ends_run:
  "fst (main ascii_stdout_env ()) = 1
   \<and> fst (run_verification ascii_stdout_env (initial ()))
       = Inl (Exception ''ascii codec cannot encode character u2014'')
   \<and> last (stdout (snd (main ascii_stdout_env ())))
       = ''  WARNING: Backend health check failed (Connection refused)''
   \<and> DAList.impl_of (results (snd (main ascii_stdout_env ()))) = []
   \<and> trace (snd (main ascii_stdout_env ()))
       = [UrlOpen ''http://localhost:3001/api/health'' 5]"
  by (simp add: runner_defs run_defs print_encoded_def raise_exn_def continuing_line_def
        ascii_stdout_env_def backend_down_env_def ok_env_def TIMEOUT_MS_def dict_defs)

section \<open>Runs in which an exception leaves a flow\<close>











end
